theory Spec2Isabelle
  imports Main "HOL-Library.Word"
begin

section \<open>Data model\<close>

text \<open>
  The estimator of \<^verbatim>\<open>llm/memory.go\<close>: \<^verbatim>\<open>EstimateGPULayers\<close> and \<^verbatim>\<open>PredictServerFit\<close>.

  Byte sizes are Go \<^verbatim>\<open>uint64\<close>: 64-bit words, whose \<open>+\<close> and \<open>*\<close> wrap around and whose
  \<open><\<close> compares the unsigned values. Layer counts are Go \<^verbatim>\<open>int\<close>. They are kept as
  integers: every count the function computes is at most the number of iterations of the
  block loop plus one, and that loop runs \<^verbatim>\<open>int(BlockCount)\<close> times, so a count never
  leaves the range of a 64-bit \<^verbatim>\<open>int\<close> unless \<^verbatim>\<open>BlockCount\<close> is \<open>2^63 - 1\<close> and every
  block and the output layer are placed. The conversion \<^verbatim>\<open>int(x)\<close> of a \<^verbatim>\<open>uint64\<close> is
  \<open>sint\<close> (two's complement), the conversion \<^verbatim>\<open>uint64(n)\<close> of an \<^verbatim>\<open>int\<close> is
  \<open>word_of_int\<close>, and the two sums the code forms from the block count,
  \<^verbatim>\<open>int(BlockCount()+1)\<close> and \<^verbatim>\<open>int(BlockCount())+1\<close>, wrap around in 64 bits: both are
  \<open>sint (BlockCount + 1)\<close>.
\<close>

type_synonym u64 = "64 word"

text \<open>The two run-time panics the function can raise.\<close>

datatype panic = IndexOutOfRange | DivideByZero

text \<open>\<^verbatim>\<open>gpu.GpuInfo\<close>: the fields the estimator reads.\<close>

record GpuInfo =
  Library :: string
  FreeMemory :: u64
  MinimumMemory :: u64

text \<open>
  \<^verbatim>\<open>*GGML\<close>: the model description. Its type is declared outside the estimator's file, so
  the values the estimator asks for are fields here: the hyperparameters of \<^verbatim>\<open>KV()\<close>,
  the function \<^verbatim>\<open>GraphSize\<close>, and the map \<^verbatim>\<open>Tensors().Layers()\<close> from layer names to
  layers, of which only \<^verbatim>\<open>size()\<close> is read. The keys the estimator looks up are
  \<^verbatim>\<open>"blk.<i>"\<close> (field \<open>blk\<close>, by the index \<open>i\<close>), \<^verbatim>\<open>"output_norm"\<close>, \<^verbatim>\<open>"output"\<close>
  and \<^verbatim>\<open>"token_embd"\<close>; \<open>None\<close> is a key that is absent.
\<close>

record GGML =
  BlockCount :: u64
  EmbeddingHeadCountK :: u64
  EmbeddingHeadCountV :: u64
  HeadCountKV :: u64
  GQA :: u64
  GraphSize :: "u64 \<Rightarrow> u64 \<Rightarrow> u64 \<times> u64"
  blk :: "nat \<Rightarrow> u64 option"
  output_norm :: "u64 option"
  output_layer :: "u64 option"
  token_embd :: "u64 option"

text \<open>\<^verbatim>\<open>api.Options\<close>: the fields the estimator reads.\<close>

record Options =
  NumCtx :: int
  NumBatch :: int
  NumGPU :: int

text \<open>
  \<^verbatim>\<open>MemoryEstimate\<close>: the exported fields. The unexported fields only feed \<^verbatim>\<open>log()\<close>.
\<close>

record MemoryEstimate =
  Layers :: int
  Graph :: u64
  VRAMSize :: u64
  TotalSize :: u64
  TensorSplit :: string
  GPUSizes :: "u64 list"

text \<open>The local type \<^verbatim>\<open>gs\<close>: a device's index in \<^verbatim>\<open>gpus\<close> and the device.\<close>

record gs =
  gs_i :: nat
  gs_g :: GpuInfo

text \<open>
  The local variables of \<^verbatim>\<open>EstimateGPULayers\<close> that the placement loops update, passed
  from one phase to the next.
\<close>

record placement =
  gpusWithSpace :: "gs list"
  gpuAllocations :: "u64 list"
  layerCounts :: "int list"
  layerCount :: int
  layerSize :: u64
  memoryWeights :: u64
  fullyLoaded :: bool
  overflow :: u64

section \<open>Sizes (lines 103--150)\<close>

text \<open>
  The values computed once, before any device is looked at: the projector overhead, the
  KV cache size, the layer size taken from block 0, the two graph sizes and the size
  of the output layer.
\<close>

record sizes =
  projectorSize :: u64
  kv :: u64
  layerSize0 :: u64
  graphPartialOffload :: u64
  graphFullOffload :: u64
  memoryLayerOutput :: u64

text \<open>
  The projector loop: each projector adds its memory requirement (the function
  \<^verbatim>\<open>projectorMemoryRequirements\<close>, a parameter \<open>pmr\<close> here) and raises the context to at
  least 2048. \<^verbatim>\<open>opts\<close> is passed by value, so the change stays local.
\<close>

definition projectors_loop ::
  "(string \<Rightarrow> u64) \<Rightarrow> string list \<Rightarrow> Options \<Rightarrow> u64 \<times> Options" where
  "projectors_loop pmr projectors opts =
     foldl (\<lambda>(ps, opts') projector.
              (ps + pmr projector, opts'\<lparr>NumCtx := max (NumCtx opts') 2048\<rparr>))
           (0, opts) projectors"

text \<open>
  Lines 110--147. \<open>kv div BlockCount\<close> is only evaluated for a nonzero block count
  (\<^verbatim>\<open>EstimateGPULayers\<close> below panics first), and \<open>hd gpus\<close> only for a non-empty list.
\<close>

definition compute_sizes ::
  "(string \<Rightarrow> u64) \<Rightarrow> GpuInfo list \<Rightarrow> GGML \<Rightarrow> string list \<Rightarrow> Options \<Rightarrow> sizes" where
  "compute_sizes pmr gpus ggml projectors opts =
     (let (ps, opts') = projectors_loop pmr projectors opts;
          ls = (case blk ggml 0 of Some s \<Rightarrow> s | None \<Rightarrow> 0);
          kv' = 2 * word_of_int (NumCtx opts') * BlockCount ggml
                  * (EmbeddingHeadCountK ggml + EmbeddingHeadCountV ggml) * HeadCountKV ggml;
          ls = ls + kv' div BlockCount ggml;
          (gp, gf) = GraphSize ggml (word_of_int (NumCtx opts'))
                       (word_of_int (min (NumCtx opts') (NumBatch opts')));
          gp = (if gp = 0 then GQA ggml * kv' div 6 else gp);
          gf = (if gf = 0 then gp else gf);
          (gp, gf) = (if Library (hd gpus) = ''metal'' then (gf, gf)
                      else if length gpus > 1 then (gp, gp) else (gp, gf));
          out = (case output_norm ggml of Some s \<Rightarrow> s | None \<Rightarrow> 0);
          out = out + (case output_layer ggml of Some s \<Rightarrow> s
                       | None \<Rightarrow> (case token_embd ggml of Some s \<Rightarrow> s | None \<Rightarrow> 0))
      in \<lparr>projectorSize = ps, kv = kv', layerSize0 = ls, graphPartialOffload = gp,
          graphFullOffload = gf, memoryLayerOutput = out\<rparr>)"

text \<open>\<^verbatim>\<open>max(graphPartialOffload, graphFullOffload)\<close>, the graph size every fit test adds.\<close>

definition maxGraph :: "sizes \<Rightarrow> u64" where
  "maxGraph sz = max (graphPartialOffload sz) (graphFullOffload sz)"

section \<open>Eligible devices (lines 152--179)\<close>

definition init_placement :: "nat \<Rightarrow> u64 \<Rightarrow> placement" where
  "init_placement n ls =
     \<lparr>gpusWithSpace = [], gpuAllocations = replicate n 0, layerCounts = replicate n 0,
      layerCount = 0, layerSize = ls, memoryWeights = 0, fullyLoaded = False, overflow = 0\<rparr>"

text \<open>
  The threshold of line 167 for device \<open>g\<close>; \<open>first\<close> says that no device has been
  found eligible yet, so that \<open>g\<close> would carry the projector overhead.
\<close>

definition threshold :: "sizes \<Rightarrow> bool \<Rightarrow> GpuInfo \<Rightarrow> u64" where
  "threshold sz first g =
     (if first then projectorSize sz else 0) + maxGraph sz + MinimumMemory g + 2 * layerSize0 sz"

text \<open>One iteration of the loop of lines 161--173, for the index \<open>i\<close>.\<close>

definition filter_step :: "sizes \<Rightarrow> GpuInfo list \<Rightarrow> placement \<Rightarrow> nat \<Rightarrow> placement" where
  "filter_step sz gpus st i =
     (if FreeMemory (gpus ! i) < threshold sz (gpusWithSpace st = []) (gpus ! i) then st
      else st\<lparr>gpusWithSpace := gpusWithSpace st @ [\<lparr>gs_i = i, gs_g = gpus ! i\<rparr>],
              gpuAllocations := (gpuAllocations st)
                [i := gpuAllocations st ! i + (MinimumMemory (gpus ! i) + layerSize0 sz)]\<rparr>)"

text \<open>The loop run over the indices \<open>0..<k\<close>: the state before iteration \<open>k\<close>.\<close>

definition filter_upto :: "sizes \<Rightarrow> GpuInfo list \<Rightarrow> nat \<Rightarrow> placement" where
  "filter_upto sz gpus k =
     foldl (filter_step sz gpus) (init_placement (length gpus) (layerSize0 sz)) [0..<k]"

text \<open>Lines 175--179: the first eligible device also carries the projector overhead.\<close>

definition charge_gpu_zero :: "sizes \<Rightarrow> placement \<Rightarrow> placement" where
  "charge_gpu_zero sz st =
     (case gpusWithSpace st of
        [] \<Rightarrow> st
      | g # _ \<Rightarrow> st\<lparr>gpuAllocations := (gpuAllocations st)
                      [gs_i g := gpuAllocations st ! gs_i g + projectorSize sz]\<rparr>)"

definition eligible_placement :: "sizes \<Rightarrow> GpuInfo list \<Rightarrow> placement" where
  "eligible_placement sz gpus = charge_gpu_zero sz (filter_upto sz gpus (length gpus))"

section \<open>Placing the blocks (lines 181--208)\<close>

text \<open>
  The inner loop of lines 196--207 for block \<open>i\<close> of size \<open>ls\<close>, with \<open>j\<close> counting down
  from the number of devices that still have space. A device that cannot take the block
  is removed from \<open>gpusWithSpace\<close> and the block is tried on the next \<open>j\<close>.
\<close>

fun place_layer :: "u64 \<Rightarrow> u64 \<Rightarrow> nat \<Rightarrow> nat \<Rightarrow> placement \<Rightarrow> placement" where
  "place_layer mg ls i 0 st = st"
| "place_layer mg ls i (Suc j') st =
     (let j = Suc j';
          g = gpusWithSpace st ! (i mod j);
          used = gpuAllocations st ! gs_i g + mg
      in if FreeMemory (gs_g g) > used + ls
         then st\<lparr>gpuAllocations := (gpuAllocations st)[gs_i g := gpuAllocations st ! gs_i g + ls],
                 layerCounts := (layerCounts st)[gs_i g := layerCounts st ! gs_i g + 1],
                 layerCount := layerCount st + 1\<rparr>
         else place_layer mg ls i j'
                (st\<lparr>gpusWithSpace := take (i mod j) (gpusWithSpace st)
                                      @ drop (i mod j + 1) (gpusWithSpace st)\<rparr>))"

text \<open>One iteration of the loop of lines 182--208, for the block index \<open>i\<close>.\<close>

definition block_step :: "GGML \<Rightarrow> Options \<Rightarrow> sizes \<Rightarrow> placement \<Rightarrow> nat \<Rightarrow> placement" where
  "block_step ggml opts sz st i =
     (let ls = (case blk ggml i of
                  Some s \<Rightarrow> s + kv sz div BlockCount ggml
                | None \<Rightarrow> layerSize st);
          st' = st\<lparr>layerSize := ls, memoryWeights := memoryWeights st + ls\<rparr>
      in if NumGPU opts \<ge> 0 \<and> layerCount st' \<ge> NumGPU opts then st'
         else place_layer (maxGraph sz) ls i (length (gpusWithSpace st')) st')"

text \<open>
  \<^verbatim>\<open>range int(BlockCount)\<close>: the indices \<open>0..<n\<close> for \<open>n = int(BlockCount)\<close>, none when that
  is negative.
\<close>

definition blockCount :: "GGML \<Rightarrow> nat" where
  "blockCount ggml = nat (sint (BlockCount ggml))"

definition place_blocks :: "GGML \<Rightarrow> Options \<Rightarrow> sizes \<Rightarrow> placement \<Rightarrow> placement" where
  "place_blocks ggml opts sz st = foldl (block_step ggml opts sz) st [0..<blockCount ggml]"

section \<open>Overflow, output layer and graph (lines 209--251)\<close>

text \<open>Lines 209--215: every block that was not placed adds the current \<open>layerSize\<close>.\<close>

definition blocks_overflow :: "GGML \<Rightarrow> placement \<Rightarrow> placement" where
  "blocks_overflow ggml st =
     (if layerCount st \<ge> sint (BlockCount ggml) then st\<lparr>fullyLoaded := True\<rparr>
      else st\<lparr>overflow := foldl (\<lambda>ov i. ov + layerSize st) (overflow st)
                               [nat (layerCount st)..<blockCount ggml]\<rparr>)"

text \<open>
  The search of lines 219--228 for a device that takes the output layer: \<open>j\<close> counts down
  from the number of devices with space, and no device is removed on the way.
\<close>

fun find_output_gpu :: "u64 \<Rightarrow> u64 \<Rightarrow> placement \<Rightarrow> nat \<Rightarrow> gs option" where
  "find_output_gpu mg out st 0 = None"
| "find_output_gpu mg out st (Suc j') =
     (let j = Suc j';
          g = gpusWithSpace st ! (nat (layerCount st) mod j);
          used = gpuAllocations st ! gs_i g + mg
      in if FreeMemory (gs_g g) > used + out then Some g
         else find_output_gpu mg out st j')"

definition place_output :: "sizes \<Rightarrow> placement \<Rightarrow> placement" where
  "place_output sz st =
     (case find_output_gpu (maxGraph sz) (memoryLayerOutput sz) st (length (gpusWithSpace st)) of
        None \<Rightarrow> st
      | Some g \<Rightarrow>
          st\<lparr>gpuAllocations := (gpuAllocations st)
                 [gs_i g := gpuAllocations st ! gs_i g + memoryLayerOutput sz],
             layerCounts := (layerCounts st)[gs_i g := layerCounts st ! gs_i g + 1],
             layerCount := layerCount st + 1\<rparr>)"

text \<open>
  Lines 217--234. The bound \<^verbatim>\<open>int(BlockCount)+1\<close> of line 230 is a sum of 64-bit \<^verbatim>\<open>int\<close>s
  and wraps around as they do: it is the signed value of the 64-bit word
  \<open>BlockCount + 1\<close>, which is \<open>- 2^63\<close> for a block count of \<open>2^63 - 1\<close>.
\<close>

definition output_step :: "GGML \<Rightarrow> Options \<Rightarrow> sizes \<Rightarrow> placement \<Rightarrow> placement" where
  "output_step ggml opts sz st =
     (if memoryLayerOutput sz > 0 \<and> (NumGPU opts < 0 \<or> layerCount st < NumGPU opts)
      then (let st' = place_output sz st
            in if layerCount st' < sint (BlockCount ggml + 1)
               then st'\<lparr>fullyLoaded := False, overflow := overflow st' + memoryLayerOutput sz\<rparr>
               else st')
      else st)"

text \<open>
  Lines 237--246: every device that holds a layer is charged the graph, the full one
  when the model is fully loaded. Each index is visited once.
\<close>

definition graph_charge :: "sizes \<Rightarrow> placement \<Rightarrow> placement" where
  "graph_charge sz st =
     st\<lparr>gpuAllocations :=
          map2 (\<lambda>a c. if c \<le> 0 then a
                      else if fullyLoaded st then a + graphFullOffload sz
                      else a + graphPartialOffload sz)
               (gpuAllocations st) (layerCounts st)\<rparr>"

section \<open>The estimate (lines 253--306)\<close>

text \<open>\<^verbatim>\<open>strconv.Itoa\<close> and \<^verbatim>\<open>strings.Join\<close>.\<close>

fun digits :: "nat \<Rightarrow> string" where
  "digits n = (if n < 10 then [''0123456789'' ! n]
               else digits (n div 10) @ [''0123456789'' ! (n mod 10)])"

declare digits.simps [simp del]

definition Itoa :: "int \<Rightarrow> string" where
  "Itoa n = (if n < 0 then CHR ''-'' # digits (nat (- n)) else digits (nat n))"

fun Join :: "string list \<Rightarrow> string \<Rightarrow> string" where
  "Join [] sep = []"
| "Join [s] sep = s"
| "Join (s # t # ss) sep = s @ sep @ Join (t # ss) sep"

text \<open>The states after each phase, for the sizes \<open>sz\<close>.\<close>

definition blocks_placement :: "GpuInfo list \<Rightarrow> GGML \<Rightarrow> Options \<Rightarrow> sizes \<Rightarrow> placement" where
  "blocks_placement gpus ggml opts sz = place_blocks ggml opts sz (eligible_placement sz gpus)"

definition output_placement :: "GpuInfo list \<Rightarrow> GGML \<Rightarrow> Options \<Rightarrow> sizes \<Rightarrow> placement" where
  "output_placement gpus ggml opts sz =
     output_step ggml opts sz (blocks_overflow ggml (blocks_placement gpus ggml opts sz))"

definition final_placement :: "GpuInfo list \<Rightarrow> GGML \<Rightarrow> Options \<Rightarrow> sizes \<Rightarrow> placement" where
  "final_placement gpus ggml opts sz = graph_charge sz (output_placement gpus ggml opts sz)"

text \<open>Lines 247--306: the sums and the returned struct.\<close>

definition build_estimate :: "GpuInfo list \<Rightarrow> sizes \<Rightarrow> placement \<Rightarrow> MemoryEstimate" where
  "build_estimate gpus sz st =
     (let graphOffload = (if fullyLoaded st then graphFullOffload sz else graphPartialOffload sz);
          memoryRequiredPartial = foldl (+) 0 (gpuAllocations st);
          memoryRequiredTotal = memoryRequiredPartial + overflow st;
          tensorSplit = (if length gpus > 1 then Join (map Itoa (layerCounts st)) '','' else []);
          estimate = \<lparr>Layers = 0, Graph = 0, VRAMSize = 0, TotalSize = memoryRequiredTotal,
                      TensorSplit = [], GPUSizes = []\<rparr>
      in if Library (hd gpus) = ''cpu'' then estimate
         else if layerCount st = 0 then estimate
         else estimate\<lparr>Layers := layerCount st, Graph := graphOffload,
                 VRAMSize := memoryRequiredPartial, TotalSize := memoryRequiredTotal,
                 TensorSplit := tensorSplit, GPUSizes := gpuAllocations st\<rparr>)"

text \<open>
  \<^verbatim>\<open>EstimateGPULayers\<close>. Line 101 reads \<^verbatim>\<open>gpus[0]\<close>, which panics on an empty slice, and line
  122 divides by \<^verbatim>\<open>BlockCount\<close>, which panics when that is zero; both come before any
  other effect. \<open>pmr\<close> is \<^verbatim>\<open>projectorMemoryRequirements\<close>.
\<close>

definition EstimateGPULayers ::
  "(string \<Rightarrow> u64) \<Rightarrow> GpuInfo list \<Rightarrow> GGML \<Rightarrow> string list \<Rightarrow> Options \<Rightarrow> panic + MemoryEstimate" where
  "EstimateGPULayers pmr gpus ggml projectors opts =
     (if gpus = [] then Inl IndexOutOfRange
      else if BlockCount ggml = 0 then Inl DivideByZero
      else (let sz = compute_sizes pmr gpus ggml projectors opts
            in Inr (build_estimate gpus sz (final_placement gpus ggml opts sz))))"

section \<open>The fit predictor (lines 15--33)\<close>

text \<open>
  \<^verbatim>\<open>PredictServerFit\<close>. \<^verbatim>\<open>allGpus.ByLibrary()\<close> is declared outside the file: its result,
  the list of device groups in the order it returns them, is the parameter \<open>groups\<close>.
  \<open>estimatedVRAM\<close> is the variable the loop overwrites with each estimate.
\<close>

fun fit_loop ::
  "(string \<Rightarrow> u64) \<Rightarrow> GGML \<Rightarrow> string list \<Rightarrow> Options \<Rightarrow> GpuInfo list list \<Rightarrow> u64
     \<Rightarrow> panic + (bool \<times> u64)" where
  "fit_loop pmr ggml projectors opts [] estimatedVRAM = Inr (False, estimatedVRAM)"
| "fit_loop pmr ggml projectors opts (gpus # rest) estimatedVRAM =
     (case EstimateGPULayers pmr gpus ggml projectors opts of
        Inl p \<Rightarrow> Inl p
      | Inr estimate \<Rightarrow>
          (let layerCount' = Layers estimate; estimatedVRAM' = VRAMSize estimate
           in if NumGPU opts < 0
              then (if layerCount' > 0 \<and> layerCount' \<ge> sint (BlockCount ggml + 1)
                    then Inr (True, estimatedVRAM')
                    else fit_loop pmr ggml projectors opts rest estimatedVRAM')
              else (if layerCount' > 0 \<and> layerCount' \<ge> NumGPU opts
                    then Inr (True, estimatedVRAM')
                    else fit_loop pmr ggml projectors opts rest estimatedVRAM')))"

definition PredictServerFit ::
  "(string \<Rightarrow> u64) \<Rightarrow> GpuInfo list list \<Rightarrow> GGML \<Rightarrow> string list \<Rightarrow> string list \<Rightarrow> Options
     \<Rightarrow> panic + (bool \<times> u64)" where
  "PredictServerFit pmr groups ggml adapters projectors opts =
     fit_loop pmr ggml projectors opts groups 0"

section \<open>Invariants and example inputs\<close>

text \<open>The two per-device vectors have one entry per device.\<close>

definition sized :: "nat \<Rightarrow> placement \<Rightarrow> bool" where
  "sized n st \<longleftrightarrow> length (gpuAllocations st) = n \<and> length (layerCounts st) = n"

text \<open>
  Example inputs. \<open>model2\<close> has two blocks of 10 and 20 bytes, an output layer of
  \<open>1 + 4\<close> bytes and a KV cache of \<open>2 * 1 * 2 * (1 + 1) * 1 = 8\<close> bytes at context 1, so
  the layer sizes are 14 and 24; its graph takes 30 bytes (partial) or 40 (full).
\<close>

definition no_projector :: "string \<Rightarrow> u64" where
  "no_projector p = 0"

definition model2 :: GGML where
  "model2 = \<lparr>BlockCount = 2, EmbeddingHeadCountK = 1, EmbeddingHeadCountV = 1, HeadCountKV = 1,
     GQA = 1, GraphSize = (\<lambda>ctx batch. (30, 40)),
     blk = (\<lambda>i. if i = 0 then Some 10 else if i = 1 then Some 20 else None),
     output_norm = Some 1, output_layer = Some 4, token_embd = None\<rparr>"

definition opts_auto :: Options where
  "opts_auto = \<lparr>NumCtx = 1, NumBatch = 1, NumGPU = - 1\<rparr>"

definition device :: "string \<Rightarrow> u64 \<Rightarrow> u64 \<Rightarrow> GpuInfo" where
  "device lib free minimum = \<lparr>Library = lib, FreeMemory = free, MinimumMemory = minimum\<rparr>"

text \<open>
  The fit test and the result of the predictor in the words of the specification: a
  grouping fits when its placed layer count is positive and reaches \<open>blockCount + 1\<close>,
  the block count plus one as a number, for the auto sentinel, or the requested count
  otherwise; the predictor answers with the first estimate that fits, and with the last
  estimate's \<open>VRAMSize\<close> (0 when there is no grouping) when none does.
\<close>

definition fits :: "GGML \<Rightarrow> Options \<Rightarrow> MemoryEstimate \<Rightarrow> bool" where
  "fits ggml opts e \<longleftrightarrow>
     Layers e > 0 \<and>
     (if NumGPU opts < 0 then Layers e \<ge> int (unat (BlockCount ggml)) + 1
      else Layers e \<ge> NumGPU opts)"

definition first_fit :: "GGML \<Rightarrow> Options \<Rightarrow> MemoryEstimate list \<Rightarrow> bool \<times> u64" where
  "first_fit ggml opts estimates =
     (case List.find (fits ggml opts) estimates of
        Some e \<Rightarrow> (True, VRAMSize e)
      | None \<Rightarrow> (False, if estimates = [] then 0 else VRAMSize (last estimates)))"

text \<open>
  Every entry of \<open>gpusWithSpace\<close> is a device of the group at its own index; and a
  device \<open>i\<close> that no phase has touched.
\<close>

definition gws_valid :: "GpuInfo list \<Rightarrow> placement \<Rightarrow> bool" where
  "gws_valid gpus st \<longleftrightarrow>
     (\<forall>g \<in> set (gpusWithSpace st). gs_i g < length gpus \<and> gs_g g = gpus ! gs_i g)"

definition untouched :: "nat \<Rightarrow> placement \<Rightarrow> bool" where
  "untouched i st \<longleftrightarrow>
     i \<notin> gs_i ` set (gpusWithSpace st) \<and> gpuAllocations st ! i = 0 \<and> layerCounts st ! i = 0"

text \<open>
  The sum that decides eligibility in the words of the specification, as a number: the
  larger of the two graph sizes, the minimum reservation of device \<open>i\<close> and two layer
  sizes, plus the projector overhead when device \<open>i\<close> would be the first eligible one,
  that is when the eligibility loop has found no device with space before \<open>i\<close>.
\<close>

definition required_memory :: "sizes \<Rightarrow> GpuInfo list \<Rightarrow> nat \<Rightarrow> nat" where
  "required_memory sz gpus i =
     (if gpusWithSpace (filter_upto sz gpus i) = [] then unat (projectorSize sz) else 0)
       + max (unat (graphPartialOffload sz)) (unat (graphFullOffload sz))
       + unat (MinimumMemory (gpus ! i)) + 2 * unat (layerSize0 sz)"

text \<open>More example inputs.\<close>

definition two_devices :: "GpuInfo list" where
  "two_devices = [device ''cuda'' 100 50, device ''cuda'' 1000 50]"

definition model_huge :: GGML where
  "model_huge = model2\<lparr>BlockCount := 2 ^ 63\<rparr>"

text \<open>
  \<open>model6\<close> has six blocks, the second of 100 bytes and the others of 1 byte, no output
  layer, and no KV cache or graph (its graph size falls back to \<open>GQA * kv / 6 = 0\<close>).
\<close>

definition model6 :: GGML where
  "model6 = \<lparr>BlockCount = 6, EmbeddingHeadCountK = 0, EmbeddingHeadCountV = 0, HeadCountKV = 1,
     GQA = 1, GraphSize = (\<lambda>ctx batch. (0, 0)),
     blk = (\<lambda>i. if i = 1 then Some 100 else if i < 6 then Some 1 else None),
     output_norm = None, output_layer = None, token_embd = None\<rparr>"

text \<open>
  The run on a single device \<open>st\<close> lags behind the run \<open>st'\<close> on the same device with
  more free memory: either it has already lost its device, or both are in the same state.
\<close>

definition lags :: "placement \<Rightarrow> placement \<Rightarrow> bool" where
  "lags st st' \<longleftrightarrow>
     layerCount st \<le> layerCount st' \<and> layerSize st = layerSize st' \<and>
     (gpusWithSpace st = [] \<or>
      (\<exists>a a'. gpusWithSpace st = [a] \<and> gpusWithSpace st' = [a'] \<and> gs_i a = gs_i a' \<and>
         FreeMemory (gs_g a) \<le> FreeMemory (gs_g a') \<and>
         gpuAllocations st = gpuAllocations st' \<and> layerCount st = layerCount st'))"

text \<open>
  No 64-bit sum wraps around: for every device, the eligibility threshold with the
  projector overhead, and the free memory plus the size of any one layer (the initial
  layer size, the output layer, every block present in the model).
\<close>

definition no_wrap :: "GpuInfo list \<Rightarrow> GGML \<Rightarrow> sizes \<Rightarrow> bool" where
  "no_wrap gpus ggml sz \<longleftrightarrow>
     (\<forall>g \<in> set gpus.
        unat (projectorSize sz) + unat (maxGraph sz) + unat (MinimumMemory g)
          + 2 * unat (layerSize0 sz) < 2 ^ 64 \<and>
        unat (FreeMemory g) + unat (layerSize0 sz) < 2 ^ 64 \<and>
        unat (FreeMemory g) + unat (memoryLayerOutput sz) < 2 ^ 64 \<and>
        (\<forall>i \<in> {0..<blockCount ggml}.
           case blk ggml i of
             None \<Rightarrow> True
           | Some s \<Rightarrow> unat (FreeMemory g) + unat (s + kv sz div BlockCount ggml) < 2 ^ 64))"

text \<open>
  The invariants of the placement under \<open>no_wrap\<close>: a device is either unused or its
  allocation plus the larger graph stays within its free memory (\<open>within\<close>); after the
  eligibility loop the first eligible device also has room for the projector overhead
  (\<open>precharged\<close>); the current layer size cannot wrap a fit test (\<open>safe_size\<close>).
\<close>

definition within :: "GpuInfo list \<Rightarrow> sizes \<Rightarrow> placement \<Rightarrow> bool" where
  "within gpus sz st \<longleftrightarrow>
     (\<forall>i < length gpus.
        (i \<notin> gs_i ` set (gpusWithSpace st) \<and> gpuAllocations st ! i = 0 \<and> layerCounts st ! i = 0) \<or>
        unat (gpuAllocations st ! i) + unat (maxGraph sz) \<le> unat (FreeMemory (gpus ! i)))"

definition precharged :: "GpuInfo list \<Rightarrow> sizes \<Rightarrow> placement \<Rightarrow> bool" where
  "precharged gpus sz st \<longleftrightarrow>
     (\<forall>i < length gpus. i \<notin> gs_i ` set (gpusWithSpace st) \<longrightarrow> gpuAllocations st ! i = 0) \<and>
     (\<forall>i < length gpus. i \<in> gs_i ` set (gpusWithSpace st) \<longrightarrow>
        unat (gpuAllocations st ! i) + unat (maxGraph sz) \<le> unat (FreeMemory (gpus ! i))) \<and>
     (\<forall>g rest. gpusWithSpace st = g # rest \<longrightarrow>
        unat (gpuAllocations st ! gs_i g) + unat (maxGraph sz) + unat (projectorSize sz)
          \<le> unat (FreeMemory (gpus ! gs_i g)))"

definition safe_size :: "GpuInfo list \<Rightarrow> u64 \<Rightarrow> bool" where
  "safe_size gpus ls \<longleftrightarrow> (\<forall>g \<in> set gpus. unat (FreeMemory g) + unat ls < 2 ^ 64)"

definition placing :: "GpuInfo list \<Rightarrow> sizes \<Rightarrow> placement \<Rightarrow> bool" where
  "placing gpus sz st \<longleftrightarrow>
     within gpus sz st \<and> gws_valid gpus st \<and> sized (length gpus) st \<and> safe_size gpus (layerSize st)"

section \<open>Auxiliary lemmas\<close>

lemma foldl_invariant:
  assumes "P s" and "\<And>s x. P s \<Longrightarrow> x \<in> set xs \<Longrightarrow> P (f s x)"
  shows "P (foldl f s xs)"
  using assms by (induction xs arbitrary: s) auto


subsection \<open>The vectors keep their length\<close>

lemma sized_init: "sized n (init_placement n ls)"
  by (simp add: sized_def init_placement_def)

lemma sized_filter_step: "sized n st \<Longrightarrow> sized n (filter_step sz gpus st i)"
  by (simp add: sized_def filter_step_def)

lemma sized_filter_upto: "sized (length gpus) (filter_upto sz gpus k)"
  unfolding filter_upto_def
  by (rule foldl_invariant) (auto intro: sized_init sized_filter_step)

lemma sized_charge_gpu_zero: "sized n st \<Longrightarrow> sized n (charge_gpu_zero sz st)"
  by (simp add: sized_def charge_gpu_zero_def split: list.splits)

lemma sized_eligible: "sized (length gpus) (eligible_placement sz gpus)"
  by (simp add: eligible_placement_def sized_charge_gpu_zero sized_filter_upto)

lemma sized_place_layer: "sized n st \<Longrightarrow> sized n (place_layer mg ls i j st)"
  by (induction j arbitrary: st) (auto simp: sized_def Let_def)

lemma sized_block_step: "sized n st \<Longrightarrow> sized n (block_step ggml opts sz st i)"
  by (auto simp: block_step_def Let_def sized_def intro!: sized_place_layer[unfolded sized_def])

lemma sized_place_blocks: "sized n st \<Longrightarrow> sized n (place_blocks ggml opts sz st)"
  unfolding place_blocks_def
  by (rule foldl_invariant) (auto intro: sized_block_step)

lemma sized_blocks_overflow: "sized n st \<Longrightarrow> sized n (blocks_overflow ggml st)"
  by (simp add: sized_def blocks_overflow_def)

lemma sized_place_output: "sized n st \<Longrightarrow> sized n (place_output sz st)"
  by (simp add: sized_def place_output_def split: option.splits)

lemma sized_output_step: "sized n st \<Longrightarrow> sized n (output_step ggml opts sz st)"
  using sized_place_output[of n st sz]
  by (simp add: sized_def output_step_def Let_def)

lemma sized_graph_charge: "sized n st \<Longrightarrow> sized n (graph_charge sz st)"
  by (simp add: sized_def graph_charge_def)

lemma sized_blocks: "sized (length gpus) (blocks_placement gpus ggml opts sz)"
  by (simp add: blocks_placement_def sized_place_blocks sized_eligible)

lemma sized_output: "sized (length gpus) (output_placement gpus ggml opts sz)"
  by (simp add: output_placement_def sized_output_step sized_blocks_overflow sized_blocks)

lemma sized_final: "sized (length gpus) (final_placement gpus ggml opts sz)"
  by (simp add: final_placement_def sized_graph_charge sized_output)

lemma remove_nth_set: "set (take k xs @ drop (Suc k) xs) \<subseteq> set xs"
  by (auto dest: in_set_takeD in_set_dropD)

subsection \<open>Fields the placement loops leave alone\<close>

lemma place_layer_fields [simp]:
  "overflow (place_layer mg ls i j st) = overflow st"
  "fullyLoaded (place_layer mg ls i j st) = fullyLoaded st"
  "layerSize (place_layer mg ls i j st) = layerSize st"
  "memoryWeights (place_layer mg ls i j st) = memoryWeights st"
  by (induction j arbitrary: st; simp add: Let_def)+

lemma place_layer_gws_subset:
  "set (gpusWithSpace (place_layer mg ls i j st)) \<subseteq> set (gpusWithSpace st)"
proof (induction j arbitrary: st)
  case 0
  show ?case by simp
next
  case (Suc j)
  show ?case
    using Suc[of "st\<lparr>gpusWithSpace := take (i mod Suc j) (gpusWithSpace st)
                                      @ drop (i mod Suc j + 1) (gpusWithSpace st)\<rparr>"]
      remove_nth_set[of "i mod Suc j" "gpusWithSpace st"]
    by (auto simp: Let_def)
qed

lemma place_layer_count:
  "j = length (gpusWithSpace st) \<Longrightarrow>
     layerCount (place_layer mg ls i j st) = layerCount st + 1 \<or>
     layerCount (place_layer mg ls i j st) = layerCount st \<and>
       gpusWithSpace (place_layer mg ls i j st) = []"
proof (induction j arbitrary: st)
  case 0
  then show ?case by simp
next
  case (Suc j)
  let ?k = "i mod Suc j"
  let ?st' = "st\<lparr>gpusWithSpace := take ?k (gpusWithSpace st) @ drop (?k + 1) (gpusWithSpace st)\<rparr>"
  have "?k < length (gpusWithSpace st)"
    by (metis Suc.prems mod_less_divisor zero_less_Suc)
  then have "j = length (gpusWithSpace ?st')" using Suc.prems by auto
  from Suc.IH[OF this] show ?case by (simp add: Let_def)
qed

lemma block_step_fields [simp]:
  "overflow (block_step ggml opts sz st i) = overflow st"
  "fullyLoaded (block_step ggml opts sz st i) = fullyLoaded st"
  by (simp_all add: block_step_def Let_def)

lemma block_step_layerSize:
  "layerSize (block_step ggml opts sz st i) =
     (case blk ggml i of Some s \<Rightarrow> s + kv sz div BlockCount ggml | None \<Rightarrow> layerSize st)"
  by (simp add: block_step_def Let_def)


lemma block_step_count:
  "layerCount (block_step ggml opts sz st i) = layerCount st + 1 \<or>
   layerCount (block_step ggml opts sz st i) = layerCount st \<and>
     (gpusWithSpace (block_step ggml opts sz st i) = [] \<or>
      0 \<le> NumGPU opts \<and> NumGPU opts \<le> layerCount st)"
  using place_layer_count[of "length (gpusWithSpace st)" "st\<lparr>layerSize := l, memoryWeights := w\<rparr>" _ _ i for l w]
  by (auto simp: block_step_def Let_def)

lemma block_step_count_mono: "layerCount st \<le> layerCount (block_step ggml opts sz st i)"
  using block_step_count[of ggml opts sz st i] by auto

lemma blocks_fold_fields [simp]:
  "overflow (foldl (block_step ggml opts sz) st xs) = overflow st"
  "fullyLoaded (foldl (block_step ggml opts sz) st xs) = fullyLoaded st"
  by (induction xs arbitrary: st; simp)+

lemma blocks_fold_count_mono:
  "layerCount st \<le> layerCount (foldl (block_step ggml opts sz) st xs)"
proof (induction xs arbitrary: st)
  case Nil
  show ?case by simp
next
  case (Cons x xs)
  show ?case using Cons[of "block_step ggml opts sz st x"] block_step_count_mono[of st ggml opts sz x]
    by simp
qed

lemma blocks_fold_count_le:
  "layerCount (foldl (block_step ggml opts sz) st xs) \<le> layerCount st + int (length xs)"
proof (induction xs arbitrary: st)
  case Nil
  show ?case by simp
next
  case (Cons x xs)
  show ?case using Cons[of "block_step ggml opts sz st x"] block_step_count[of ggml opts sz st x]
    by auto
qed



subsection \<open>Layer counts are not negative, overflow starts at zero\<close>

lemma filter_step_fields [simp]:
  "layerCount (filter_step sz gpus st i) = layerCount st"
  "overflow (filter_step sz gpus st i) = overflow st"
  "fullyLoaded (filter_step sz gpus st i) = fullyLoaded st"
  "layerCounts (filter_step sz gpus st i) = layerCounts st"
  "layerSize (filter_step sz gpus st i) = layerSize st"
  by (simp_all add: filter_step_def)

lemma filter_fold_fields [simp]:
  "layerCount (foldl (filter_step sz gpus) st xs) = layerCount st"
  "overflow (foldl (filter_step sz gpus) st xs) = overflow st"
  "fullyLoaded (foldl (filter_step sz gpus) st xs) = fullyLoaded st"
  "layerCounts (foldl (filter_step sz gpus) st xs) = layerCounts st"
  "layerSize (foldl (filter_step sz gpus) st xs) = layerSize st"
  by (induction xs arbitrary: st; simp)+

lemma eligible_fields [simp]:
  "layerCount (eligible_placement sz gpus) = 0"
  "overflow (eligible_placement sz gpus) = 0"
  "fullyLoaded (eligible_placement sz gpus) = False"
  "layerCounts (eligible_placement sz gpus) = replicate (length gpus) 0"
  "layerSize (eligible_placement sz gpus) = layerSize0 sz"
  by (simp_all add: eligible_placement_def charge_gpu_zero_def filter_upto_def init_placement_def
      split: list.splits)

lemma blocks_placement_fields [simp]:
  "overflow (blocks_placement gpus ggml opts sz) = 0"
  "fullyLoaded (blocks_placement gpus ggml opts sz) = False"
  by (simp_all add: blocks_placement_def place_blocks_def)

lemma blocks_placement_count:
  "0 \<le> layerCount (blocks_placement gpus ggml opts sz)"
  "layerCount (blocks_placement gpus ggml opts sz) \<le> int (blockCount ggml)"
  using blocks_fold_count_mono[of "eligible_placement sz gpus" ggml opts sz "[0..<blockCount ggml]"]
    blocks_fold_count_le[of ggml opts sz "eligible_placement sz gpus" "[0..<blockCount ggml]"]
  by (simp_all add: blocks_placement_def place_blocks_def)

subsection \<open>The eligibility loop\<close>

lemma filter_upto_Suc: "filter_upto sz gpus (Suc k) = filter_step sz gpus (filter_upto sz gpus k) k"
  by (simp add: filter_upto_def)

lemma filter_upto_gws:
  "g \<in> set (gpusWithSpace (filter_upto sz gpus k)) \<Longrightarrow> gs_i g < k \<and> gs_g g = gpus ! gs_i g"
proof (induction k)
  case 0
  then show ?case by (simp add: filter_upto_def init_placement_def)
next
  case (Suc k)
  then show ?case
    by (auto simp: filter_upto_Suc filter_step_def less_Suc_eq split: if_splits)
qed

lemma filter_upto_alloc_later:
  "k \<le> j \<Longrightarrow> j < length gpus \<Longrightarrow> gpuAllocations (filter_upto sz gpus k) ! j = 0"
proof (induction k)
  case 0
  then show ?case by (simp add: filter_upto_def init_placement_def)
next
  case (Suc k)
  then show ?case by (auto simp: filter_upto_Suc filter_step_def)
qed

lemma filter_upto_layerCounts [simp]:
  "layerCounts (filter_upto sz gpus k) = replicate (length gpus) 0"
  by (simp add: filter_upto_def init_placement_def)

lemma filter_upto_excluded:
  assumes "i < length gpus"
    and "FreeMemory (gpus ! i) < threshold sz (gpusWithSpace (filter_upto sz gpus i) = []) (gpus ! i)"
    and "i < k"
  shows "i \<notin> gs_i ` set (gpusWithSpace (filter_upto sz gpus k)) \<and>
         gpuAllocations (filter_upto sz gpus k) ! i = 0"
  using assms(3)
proof (induction k)
  case 0
  then show ?case by simp
next
  case (Suc k)
  show ?case
  proof (cases "i = k")
    case True
    have "filter_upto sz gpus (Suc k) = filter_upto sz gpus k"
      using assms(2) True by (simp add: filter_upto_Suc filter_step_def)
    moreover have "i \<notin> gs_i ` set (gpusWithSpace (filter_upto sz gpus k))"
      using filter_upto_gws[of _ sz gpus k] True by auto
    moreover have "gpuAllocations (filter_upto sz gpus k) ! i = 0"
      using filter_upto_alloc_later[of k i gpus sz] True assms(1) by simp
    ultimately show ?thesis by simp
  next
    case False
    then have "i < k" using Suc.prems by simp
    from Suc.IH[OF this] show ?thesis
      using False by (auto simp: filter_upto_Suc filter_step_def)
  qed
qed

lemma gws_valid_eligible: "gws_valid gpus (eligible_placement sz gpus)"
proof -
  have "gws_valid gpus (filter_upto sz gpus (length gpus))"
    using filter_upto_gws[of _ sz gpus "length gpus"] by (auto simp: gws_valid_def)
  then show ?thesis
    by (simp add: gws_valid_def eligible_placement_def charge_gpu_zero_def split: list.splits)
qed

lemma untouched_eligible:
  assumes "i < length gpus"
    and "FreeMemory (gpus ! i) < threshold sz (gpusWithSpace (filter_upto sz gpus i) = []) (gpus ! i)"
  shows "untouched i (eligible_placement sz gpus)"
proof -
  have f: "i \<notin> gs_i ` set (gpusWithSpace (filter_upto sz gpus (length gpus)))"
    "gpuAllocations (filter_upto sz gpus (length gpus)) ! i = 0"
    using filter_upto_excluded[OF assms assms(1)] by simp_all
  show ?thesis
  proof (cases "gpusWithSpace (filter_upto sz gpus (length gpus))")
    case Nil
    then show ?thesis using f assms(1)
      by (simp add: untouched_def eligible_placement_def charge_gpu_zero_def)
  next
    case (Cons g gs)
    then have "gs_i g \<noteq> i" using f(1) by auto
    then show ?thesis using f assms(1) Cons
      by (simp add: untouched_def eligible_placement_def charge_gpu_zero_def)
  qed
qed

subsection \<open>Later phases only touch devices with space\<close>

lemma gws_valid_subset:
  "gws_valid gpus st \<Longrightarrow> set (gpusWithSpace st') \<subseteq> set (gpusWithSpace st) \<Longrightarrow> gws_valid gpus st'"
  by (auto simp: gws_valid_def)

lemma untouched_place_layer:
  "untouched i st \<Longrightarrow> j \<le> length (gpusWithSpace st) \<Longrightarrow> untouched i (place_layer mg ls b j st)"
proof (induction j arbitrary: st)
  case 0
  then show ?case by simp
next
  case (Suc j)
  let ?k = "b mod Suc j"
  let ?st' = "st\<lparr>gpusWithSpace := take ?k (gpusWithSpace st) @ drop (?k + 1) (gpusWithSpace st)\<rparr>"
  have k: "?k < length (gpusWithSpace st)"
    using Suc.prems(2) mod_less_divisor[of "Suc j" b] by linarith
  have mem: "gpusWithSpace st ! ?k \<in> set (gpusWithSpace st)" using k by simp
  have ne: "gs_i (gpusWithSpace st ! ?k) \<noteq> i" using Suc.prems(1) mem by (auto simp: untouched_def)
  have "untouched i ?st'"
    using Suc.prems(1) remove_nth_set[of ?k "gpusWithSpace st"] by (auto simp: untouched_def)
  moreover have "j \<le> length (gpusWithSpace ?st')" using k Suc.prems(2) by auto
  ultimately have "untouched i (place_layer mg ls b j ?st')" by (rule Suc.IH)
  then show ?case using ne Suc.prems(1) by (auto simp: Let_def untouched_def)
qed

lemma untouched_block_step: "untouched i st \<Longrightarrow> untouched i (block_step ggml opts sz st b)"
proof -
  assume u: "untouched i st"
  have "untouched i (st\<lparr>layerSize := l, memoryWeights := w\<rparr>)" for l w
    using u by (simp add: untouched_def)
  then show ?thesis
    using untouched_place_layer[of i "st\<lparr>layerSize := l, memoryWeights := w\<rparr>"
        "length (gpusWithSpace st)" _ _ b for l w]
    by (auto simp: block_step_def Let_def)
qed

lemma untouched_blocks: "untouched i st \<Longrightarrow> untouched i (place_blocks ggml opts sz st)"
  unfolding place_blocks_def
  by (rule foldl_invariant) (auto intro: untouched_block_step)

lemma find_output_gpu_mem:
  "find_output_gpu mg out st j = Some g \<Longrightarrow> j \<le> length (gpusWithSpace st) \<Longrightarrow>
     g \<in> set (gpusWithSpace st) \<and>
     FreeMemory (gs_g g) > gpuAllocations st ! gs_i g + mg + out"
proof (induction j)
  case 0
  then show ?case by simp
next
  case (Suc j)
  have "nat (layerCount st) mod Suc j < length (gpusWithSpace st)"
    using Suc.prems(2) mod_less_divisor[of "Suc j" "nat (layerCount st)"] by linarith
  then show ?case using Suc by (auto simp: Let_def split: if_splits)
qed

lemma untouched_place_output:
  assumes "untouched i st"
  shows "untouched i (place_output sz st)"
proof (cases "find_output_gpu (maxGraph sz) (memoryLayerOutput sz) st (length (gpusWithSpace st))")
  case None
  then show ?thesis using assms by (simp add: place_output_def)
next
  case (Some g)
  then have "g \<in> set (gpusWithSpace st)" using find_output_gpu_mem by blast
  then have "gs_i g \<noteq> i" using assms by (auto simp: untouched_def)
  then show ?thesis using assms Some by (simp add: place_output_def untouched_def)
qed

lemma untouched_output_step: "untouched i st \<Longrightarrow> untouched i (output_step ggml opts sz st)"
  using untouched_place_output[of i st sz]
  by (auto simp: output_step_def Let_def untouched_def)

lemma untouched_blocks_overflow: "untouched i st \<Longrightarrow> untouched i (blocks_overflow ggml st)"
  by (simp add: untouched_def blocks_overflow_def)

lemma untouched_graph_charge:
  "untouched i st \<Longrightarrow> sized n st \<Longrightarrow> i < n \<Longrightarrow> untouched i (graph_charge sz st)"
  by (simp add: untouched_def graph_charge_def sized_def)

lemma untouched_final:
  assumes "i < length gpus"
    and "FreeMemory (gpus ! i) < threshold sz (gpusWithSpace (filter_upto sz gpus i) = []) (gpus ! i)"
  shows "untouched i (final_placement gpus ggml opts sz)"
  unfolding final_placement_def output_placement_def blocks_placement_def
  by (intro untouched_graph_charge[where n = "length gpus"] untouched_output_step
      untouched_blocks_overflow untouched_blocks untouched_eligible assms
      sized_output[unfolded output_placement_def blocks_placement_def])

lemma blocks_overflow_fields [simp]:
  "layerCount (blocks_overflow ggml st) = layerCount st"
  "gpusWithSpace (blocks_overflow ggml st) = gpusWithSpace st"
  "gpuAllocations (blocks_overflow ggml st) = gpuAllocations st"
  "layerCounts (blocks_overflow ggml st) = layerCounts st"
  by (simp_all add: blocks_overflow_def)




subsection \<open>One device with more free memory\<close>

lemma compute_sizes_single:
  "compute_sizes pmr [g\<lparr>FreeMemory := f'\<rparr>] ggml projectors opts = compute_sizes pmr [g] ggml projectors opts"
  by (simp add: compute_sizes_def Let_def split: prod.splits)

lemma lags_start:
  assumes "FreeMemory g < f'"
  shows "lags (eligible_placement sz [g]) (eligible_placement sz [g\<lparr>FreeMemory := f'\<rparr>])"
proof -
  have up: "filter_upto sz [h] (Suc 0) = filter_step sz [h] (init_placement (Suc 0) (layerSize0 sz)) 0" for h
    by (simp add: filter_upto_def)
  have th: "threshold sz b (g\<lparr>FreeMemory := f'\<rparr>) = threshold sz b g" for b
    by (simp add: threshold_def)
  show ?thesis
  proof (cases "FreeMemory g < threshold sz True g")
    case True
    then show ?thesis
      by (simp add: lags_def eligible_placement_def up filter_step_def init_placement_def
          charge_gpu_zero_def split: list.splits)
  next
    case False
    then have "\<not> f' < threshold sz True g" using assms by simp
    then show ?thesis using False assms
      by (simp add: lags_def eligible_placement_def up filter_step_def init_placement_def
          charge_gpu_zero_def th)
  qed
qed

lemma block_step_empty:
  "gpusWithSpace st = [] \<Longrightarrow>
     gpusWithSpace (block_step ggml opts sz st i) = [] \<and>
     layerCount (block_step ggml opts sz st i) = layerCount st"
  by (simp add: block_step_def Let_def)

lemma lags_block_step:
  assumes "lags st st'"
  shows "lags (block_step ggml opts sz st i) (block_step ggml opts sz st' i)"
proof (cases "gpusWithSpace st = []")
  case True
  then show ?thesis
    using assms block_step_empty[OF True, of ggml opts sz i]
      block_step_count_mono[of st' ggml opts sz i]
    by (auto simp: lags_def block_step_layerSize split: option.splits)
next
  case False
  then obtain a a' where s: "gpusWithSpace st = [a]" "gpusWithSpace st' = [a']" "gs_i a = gs_i a'"
    "FreeMemory (gs_g a) \<le> FreeMemory (gs_g a')" "gpuAllocations st = gpuAllocations st'"
    "layerCount st = layerCount st'" "layerSize st = layerSize st'"
    using assms by (auto simp: lags_def)
  show ?thesis
  proof (cases "blk ggml i")
    case None
    then show ?thesis using s by (auto simp: lags_def block_step_def Let_def)
  next
    case (Some b)
    then show ?thesis using s by (auto simp: lags_def block_step_def Let_def)
  qed
qed

lemma lags_blocks:
  "lags st st' \<Longrightarrow> lags (foldl (block_step ggml opts sz) st xs) (foldl (block_step ggml opts sz) st' xs)"
  by (induction xs arbitrary: st st') (auto intro: lags_block_step)

lemma place_output_count_mono: "layerCount st \<le> layerCount (place_output sz st)"
  by (simp add: place_output_def split: option.splits)

lemma output_step_count_mono: "layerCount st \<le> layerCount (output_step ggml opts sz st)"
  using place_output_count_mono[of st sz] by (simp add: output_step_def Let_def)

lemma lags_output_step:
  assumes "lags st st'"
  shows "layerCount (output_step ggml opts sz st) \<le> layerCount (output_step ggml opts sz st')"
proof (cases "gpusWithSpace st = []")
  case True
  then have "layerCount (output_step ggml opts sz st) = layerCount st"
    by (simp add: output_step_def place_output_def Let_def)
  then show ?thesis using assms output_step_count_mono[of st' ggml opts sz] by (simp add: lags_def)
next
  case False
  then obtain a a' where s: "gpusWithSpace st = [a]" "gpusWithSpace st' = [a']" "gs_i a = gs_i a'"
    "FreeMemory (gs_g a) \<le> FreeMemory (gs_g a')" "gpuAllocations st = gpuAllocations st'"
    "layerCount st = layerCount st'"
    using assms by (auto simp: lags_def)
  show ?thesis using s
    by (auto simp: output_step_def place_output_def Let_def)
qed

lemma lags_blocks_overflow: "lags st st' \<Longrightarrow> lags (blocks_overflow ggml st) (blocks_overflow ggml st')"
  by (auto simp: lags_def blocks_overflow_def)

lemma graph_charge_count [simp]: "layerCount (graph_charge sz st) = layerCount st"
  by (simp add: graph_charge_def)

lemma final_count_mono:
  assumes "FreeMemory g < f'"
  shows "layerCount (final_placement [g] ggml opts sz)
           \<le> layerCount (final_placement [g\<lparr>FreeMemory := f'\<rparr>] ggml opts sz)"
  unfolding final_placement_def output_placement_def blocks_placement_def place_blocks_def
  using lags_output_step[OF lags_blocks_overflow[OF lags_blocks[OF lags_start[OF assms]]]]
  by simp

lemma final_count_nonneg: "0 \<le> layerCount (final_placement gpus ggml opts sz)"
  using blocks_placement_count(1)[of gpus ggml opts sz]
    output_step_count_mono[of "blocks_overflow ggml (blocks_placement gpus ggml opts sz)" ggml opts sz]
  by (simp add: final_placement_def output_placement_def)

subsection \<open>Sums that do not wrap\<close>

lemma unat_bound: "unat (x :: u64) < 2 ^ 64"
  using unsigned_less[of x, where 'a = nat] by simp

lemma unat_add_nowrap: "unat a + unat b < 2 ^ 64 \<Longrightarrow> unat (a + b :: u64) = unat a + unat b"
  using unat_add_lem[of a b] by simp

lemma unat_double_nowrap:
  assumes "2 * unat a < 2 ^ 64"
  shows "unat (2 * a :: u64) = 2 * unat a"
proof -
  have "2 * a = a + a" by simp
  moreover have "unat (a + a) = unat a + unat a"
    using assms by (intro unat_add_nowrap) linarith
  ultimately show ?thesis by (metis mult_2)
qed

lemma eligible_room:
  fixes F g m q l :: u64
  assumes "\<not> F < g + m + q + 2 * l" and "unat g + unat m + unat q + 2 * unat l < 2 ^ 64"
  shows "unat (q + l) = unat q + unat l" and "unat g + unat m + unat q + 2 * unat l \<le> unat F"
proof -
  show "unat (q + l) = unat q + unat l" using assms(2) by (intro unat_add_nowrap) linarith
  have 1: "unat (g + m) = unat g + unat m" using assms(2) by (intro unat_add_nowrap) linarith
  have 2: "unat (g + m + q) = unat g + unat m + unat q"
    using assms(2) 1 unat_add_nowrap[of "g + m" q] by linarith
  have 3: "unat (2 * l) = 2 * unat l" using assms(2) by (intro unat_double_nowrap) linarith
  have "unat (g + m + q + 2 * l) = unat g + unat m + unat q + 2 * unat l"
    using assms(2) 2 3 unat_add_nowrap[of "g + m + q" "2 * l"] by linarith
  moreover have "unat (g + m + q + 2 * l) \<le> unat F"
    using assms(1) by (simp add: word_less_nat_alt)
  ultimately show "unat g + unat m + unat q + 2 * unat l \<le> unat F" by linarith
qed

lemma threshold_nowrap:
  fixes g m q l :: u64
  assumes "unat g + unat m + unat q + 2 * unat l < 2 ^ 64"
  shows "unat (g + m + q + 2 * l) = unat g + unat m + unat q + 2 * unat l"
proof -
  have 1: "unat (g + m) = unat g + unat m" using assms by (intro unat_add_nowrap) linarith
  have 2: "unat (g + m + q) = unat g + unat m + unat q"
    using assms 1 unat_add_nowrap[of "g + m" q] by linarith
  have 3: "unat (2 * l) = 2 * unat l" using assms by (intro unat_double_nowrap) linarith
  show ?thesis using assms 2 3 unat_add_nowrap[of "g + m + q" "2 * l"] by linarith
qed

lemma threshold_required_memory:
  assumes "required_memory sz gpus i < 2 ^ 64"
  shows "unat (threshold sz (gpusWithSpace (filter_upto sz gpus i) = []) (gpus ! i)) =
           required_memory sz gpus i"
proof -
  let ?g = "if gpusWithSpace (filter_upto sz gpus i) = [] then projectorSize sz else 0"
  have mx: "unat (maxGraph sz) = max (unat (graphPartialOffload sz)) (unat (graphFullOffload sz))"
    by (simp add: maxGraph_def max_def word_le_nat_alt)
  have r: "required_memory sz gpus i =
      unat ?g + unat (maxGraph sz) + unat (MinimumMemory (gpus ! i)) + 2 * unat (layerSize0 sz)"
    using mx by (simp add: required_memory_def)
  then have "unat ?g + unat (maxGraph sz) + unat (MinimumMemory (gpus ! i))
      + 2 * unat (layerSize0 sz) < 2 ^ 64"
    using assms by simp
  then have "unat (?g + maxGraph sz + MinimumMemory (gpus ! i) + 2 * layerSize0 sz) =
      unat ?g + unat (maxGraph sz) + unat (MinimumMemory (gpus ! i)) + 2 * unat (layerSize0 sz)"
    by (rule threshold_nowrap)
  then show ?thesis using r by (simp add: threshold_def)
qed

lemma placement_room:
  fixes F a m s :: u64
  assumes "unat a + unat m \<le> unat F" and "unat F + unat s < 2 ^ 64" and "a + m + s < F"
  shows "unat (a + s) + unat m \<le> unat F"
proof -
  have am: "unat (a + m) = unat a + unat m"
    using assms(1) unat_bound[of F] by (intro unat_add_nowrap) linarith
  have "unat (a + m + s) = unat a + unat m + unat s"
    using assms(1,2) am unat_add_nowrap[of "a + m" s] by linarith
  moreover have "unat (a + m + s) < unat F" using assms(3) by (simp add: word_less_nat_alt)
  ultimately have lt: "unat a + unat m + unat s < unat F" by linarith
  have "unat (a + s) = unat a + unat s"
    using lt unat_bound[of F] by (intro unat_add_nowrap) linarith
  then show ?thesis using lt by linarith
qed

lemma graph_room:
  fixes F a m g :: u64
  assumes "unat a + unat m \<le> unat F" and "g \<le> m"
  shows "a + g \<le> F"
proof -
  have gm: "unat g \<le> unat m" using assms(2) by (simp add: word_le_nat_alt)
  have "unat (a + g) = unat a + unat g"
    using assms(1) gm unat_bound[of F] by (intro unat_add_nowrap) linarith
  then have "unat (a + g) \<le> unat F" using assms(1) gm by linarith
  then show ?thesis by (simp add: word_le_nat_alt)
qed

lemma overhead_room:
  fixes F a m p :: u64
  assumes "unat a + unat m + unat p \<le> unat F"
  shows "unat (a + p) + unat m \<le> unat F"
proof -
  have "unat (a + p) = unat a + unat p"
    using assms unat_bound[of F] by (intro unat_add_nowrap) linarith
  then show ?thesis using assms by linarith
qed


subsection \<open>Allocations stay within free memory\<close>

lemma precharged_filter_upto:
  assumes nw: "no_wrap gpus ggml sz" and "k \<le> length gpus"
  shows "precharged gpus sz (filter_upto sz gpus k)"
  using assms(2)
proof (induction k)
  case 0
  then show ?case by (simp add: precharged_def filter_upto_def init_placement_def)
next
  case (Suc k)
  let ?st = "filter_upto sz gpus k"
  let ?g = "gpus ! k"
  let ?gzo = "if gpusWithSpace ?st = [] then projectorSize sz else 0"
  have k: "k < length gpus" using Suc.prems by simp
  have IH: "precharged gpus sz ?st" using Suc by simp
  have fresh: "k \<notin> gs_i ` set (gpusWithSpace ?st)" using filter_upto_gws[of _ sz gpus k] by auto
  have zero: "gpuAllocations ?st ! k = 0" using filter_upto_alloc_later[of k k gpus sz] k by simp
  have len: "length (gpuAllocations ?st) = length gpus"
    using sized_filter_upto[of gpus sz k] by (simp add: sized_def)
  show ?case
  proof (cases "FreeMemory ?g < threshold sz (gpusWithSpace ?st = []) ?g")
    case True
    then show ?thesis using IH by (simp add: filter_upto_Suc filter_step_def)
  next
    case False
    have mem: "?g \<in> set gpus" using k by simp
    have b: "unat ?gzo + unat (maxGraph sz) + unat (MinimumMemory ?g) + 2 * unat (layerSize0 sz) < 2 ^ 64"
      using nw mem by (auto simp: no_wrap_def)
    have ne: "\<not> FreeMemory ?g < ?gzo + maxGraph sz + MinimumMemory ?g + 2 * layerSize0 sz"
      using False by (simp add: threshold_def)
    note room = eligible_room[OF ne b]
    let ?st' = "filter_step sz gpus ?st k"
    have st': "?st' = ?st\<lparr>gpusWithSpace := gpusWithSpace ?st @ [\<lparr>gs_i = k, gs_g = ?g\<rparr>],
        gpuAllocations := (gpuAllocations ?st)[k := MinimumMemory ?g + layerSize0 sz]\<rparr>"
      using False zero by (simp add: filter_step_def)
    have a: "\<forall>i < length gpus. i \<notin> gs_i ` set (gpusWithSpace ?st') \<longrightarrow> gpuAllocations ?st' ! i = 0"
      using IH by (auto simp: st' precharged_def)
    have new: "unat (gpuAllocations ?st' ! k) + unat (maxGraph sz) + unat ?gzo \<le> unat (FreeMemory ?g)"
      using room k len by (simp add: st')
    have c: "\<forall>i < length gpus. i \<in> gs_i ` set (gpusWithSpace ?st') \<longrightarrow>
        unat (gpuAllocations ?st' ! i) + unat (maxGraph sz) \<le> unat (FreeMemory (gpus ! i))"
    proof (intro allI impI)
      fix i assume i: "i < length gpus" "i \<in> gs_i ` set (gpusWithSpace ?st')"
      show "unat (gpuAllocations ?st' ! i) + unat (maxGraph sz) \<le> unat (FreeMemory (gpus ! i))"
      proof (cases "i = k")
        case True
        then show ?thesis using new by simp
      next
        case False
        then have "i \<in> gs_i ` set (gpusWithSpace ?st)" using i(2) by (auto simp: st')
        then show ?thesis using IH i(1) False by (simp add: st' precharged_def)
      qed
    qed
    have d: "\<forall>g rest. gpusWithSpace ?st' = g # rest \<longrightarrow>
        unat (gpuAllocations ?st' ! gs_i g) + unat (maxGraph sz) + unat (projectorSize sz)
          \<le> unat (FreeMemory (gpus ! gs_i g))"
    proof (intro allI impI)
      fix g rest assume g: "gpusWithSpace ?st' = g # rest"
      show "unat (gpuAllocations ?st' ! gs_i g) + unat (maxGraph sz) + unat (projectorSize sz)
          \<le> unat (FreeMemory (gpus ! gs_i g))"
      proof (cases "gpusWithSpace ?st")
        case Nil
        then have "g = \<lparr>gs_i = k, gs_g = ?g\<rparr>" using g by (simp add: st')
        then show ?thesis using new Nil by simp
      next
        case (Cons h hs)
        then have gh: "g = h" using g by (simp add: st')
        have "gs_i h \<noteq> k" using fresh Cons by auto
        then show ?thesis using IH Cons gh by (simp add: st' precharged_def)
      qed
    qed
    show ?thesis using a c d by (simp add: precharged_def filter_upto_Suc)
  qed
qed

lemma within_eligible:
  assumes "no_wrap gpus ggml sz"
  shows "within gpus sz (eligible_placement sz gpus)"
proof -
  let ?st = "filter_upto sz gpus (length gpus)"
  have pre: "precharged gpus sz ?st" by (rule precharged_filter_upto[OF assms]) simp
  have len: "length (gpuAllocations ?st) = length gpus"
    using sized_filter_upto[of gpus sz "length gpus"] by (simp add: sized_def)
  show ?thesis
  proof (cases "gpusWithSpace ?st")
    case Nil
    then show ?thesis using pre
      by (auto simp: within_def precharged_def eligible_placement_def charge_gpu_zero_def)
  next
    case (Cons g rest)
    have gi: "gs_i g < length gpus" using filter_upto_gws[of g sz gpus "length gpus"] Cons by simp
    have g0: "unat (gpuAllocations ?st ! gs_i g + projectorSize sz) + unat (maxGraph sz)
        \<le> unat (FreeMemory (gpus ! gs_i g))"
      using pre Cons by (intro overhead_room) (simp add: precharged_def)
    have el: "eligible_placement sz gpus = ?st\<lparr>gpuAllocations := (gpuAllocations ?st)
        [gs_i g := gpuAllocations ?st ! gs_i g + projectorSize sz]\<rparr>"
      using Cons by (simp add: eligible_placement_def charge_gpu_zero_def)
    show ?thesis unfolding within_def
    proof (intro allI impI)
      fix i assume i: "i < length gpus"
      show "i \<notin> gs_i ` set (gpusWithSpace (eligible_placement sz gpus)) \<and>
         gpuAllocations (eligible_placement sz gpus) ! i = 0 \<and>
         layerCounts (eligible_placement sz gpus) ! i = 0 \<or>
         unat (gpuAllocations (eligible_placement sz gpus) ! i) + unat (maxGraph sz)
         \<le> unat (FreeMemory (gpus ! i))"
      proof (cases "i = gs_i g")
        case True
        then show ?thesis using g0 gi len by (simp add: el)
      next
        case False
        then show ?thesis using pre i by (auto simp: el precharged_def)
      qed
    qed
  qed
qed

lemma within_place_layer:
  assumes "within gpus sz st" and "gws_valid gpus st" and "sized (length gpus) st"
    and "j \<le> length (gpusWithSpace st)" and "safe_size gpus ls"
  shows "within gpus sz (place_layer (maxGraph sz) ls b j st)"
  using assms(1-4)
proof (induction j arbitrary: st)
  case 0
  then show ?case by simp
next
  case (Suc j)
  let ?k = "b mod Suc j"
  let ?g = "gpusWithSpace st ! ?k"
  let ?st' = "st\<lparr>gpusWithSpace := take ?k (gpusWithSpace st) @ drop (?k + 1) (gpusWithSpace st)\<rparr>"
  have k: "?k < length (gpusWithSpace st)"
    using Suc.prems(4) mod_less_divisor[of "Suc j" b] by linarith
  have mem: "?g \<in> set (gpusWithSpace st)" using k by simp
  have gi: "gs_i ?g < length gpus" and gg: "gs_g ?g = gpus ! gs_i ?g"
    using Suc.prems(2) mem by (auto simp: gws_valid_def)
  have len: "length (gpuAllocations st) = length gpus" "length (layerCounts st) = length gpus"
    using Suc.prems(3) by (simp_all add: sized_def)
  have cur: "unat (gpuAllocations st ! gs_i ?g) + unat (maxGraph sz) \<le> unat (FreeMemory (gpus ! gs_i ?g))"
    using Suc.prems(1) gi mem by (auto simp: within_def)
  show ?case
  proof (cases "FreeMemory (gs_g ?g) > gpuAllocations st ! gs_i ?g + maxGraph sz + ls")
    case True
    have safe: "unat (FreeMemory (gpus ! gs_i ?g)) + unat ls < 2 ^ 64"
      using assms(5) gi by (simp add: safe_size_def)
    have new: "unat (gpuAllocations st ! gs_i ?g + ls) + unat (maxGraph sz)
        \<le> unat (FreeMemory (gpus ! gs_i ?g))"
      using True gg by (intro placement_room[OF cur safe]) simp
    have res: "place_layer (maxGraph sz) ls b (Suc j) st =
        st\<lparr>gpuAllocations := (gpuAllocations st)[gs_i ?g := gpuAllocations st ! gs_i ?g + ls],
           layerCounts := (layerCounts st)[gs_i ?g := layerCounts st ! gs_i ?g + 1],
           layerCount := layerCount st + 1\<rparr>"
      using True by (simp add: Let_def)
    show ?thesis unfolding within_def res
    proof (intro allI impI)
      fix i assume i: "i < length gpus"
      let ?r = "st\<lparr>gpuAllocations := (gpuAllocations st)[gs_i ?g := gpuAllocations st ! gs_i ?g + ls],
           layerCounts := (layerCounts st)[gs_i ?g := layerCounts st ! gs_i ?g + 1],
           layerCount := layerCount st + 1\<rparr>"
      show "i \<notin> gs_i ` set (gpusWithSpace ?r) \<and> gpuAllocations ?r ! i = 0 \<and> layerCounts ?r ! i = 0 \<or>
            unat (gpuAllocations ?r ! i) + unat (maxGraph sz) \<le> unat (FreeMemory (gpus ! i))"
      proof (cases "i = gs_i ?g")
        case True
        then show ?thesis using new gi len by simp
      next
        case False
        then show ?thesis using Suc.prems(1) i by (auto simp: within_def)
      qed
    qed
  next
    case False
    have w: "within gpus sz ?st'"
      using Suc.prems(1) remove_nth_set[of ?k "gpusWithSpace st"]
      by (auto simp: within_def)
    have v: "gws_valid gpus ?st'"
      using Suc.prems(2) remove_nth_set[of ?k "gpusWithSpace st"] by (auto simp: gws_valid_def)
    have s: "sized (length gpus) ?st'" using Suc.prems(3) by (simp add: sized_def)
    have l: "j \<le> length (gpusWithSpace ?st')" using k Suc.prems(4) by auto
    have "within gpus sz (place_layer (maxGraph sz) ls b j ?st')"
      by (rule Suc.IH[OF w v s l])
    then show ?thesis using False by (simp add: Let_def)
  qed
qed

lemma placing_block_step:
  assumes "placing gpus sz st" and "no_wrap gpus ggml sz" and "b < blockCount ggml"
  shows "placing gpus sz (block_step ggml opts sz st b)"
proof -
  let ?ls = "case blk ggml b of Some s \<Rightarrow> s + kv sz div BlockCount ggml | None \<Rightarrow> layerSize st"
  let ?st' = "st\<lparr>layerSize := ?ls, memoryWeights := memoryWeights st + ?ls\<rparr>"
  have safe: "safe_size gpus ?ls"
  proof (cases "blk ggml b")
    case None
    then show ?thesis using assms(1) by (simp add: placing_def)
  next
    case (Some s)
    have "unat (FreeMemory g) + unat (s + kv sz div BlockCount ggml) < 2 ^ 64" if "g \<in> set gpus" for g
    proof -
      have "\<forall>i \<in> {0..<blockCount ggml}. case blk ggml i of None \<Rightarrow> True
              | Some s \<Rightarrow> unat (FreeMemory g) + unat (s + kv sz div BlockCount ggml) < 2 ^ 64"
        using assms(2) that by (simp add: no_wrap_def)
      moreover have "b \<in> {0..<blockCount ggml}" using assms(3) by simp
      ultimately have "case blk ggml b of None \<Rightarrow> True
              | Some s \<Rightarrow> unat (FreeMemory g) + unat (s + kv sz div BlockCount ggml) < 2 ^ 64"
        by (rule bspec)
      then show ?thesis using Some by simp
    qed
    then show ?thesis using Some by (simp add: safe_size_def)
  qed
  have w: "within gpus sz ?st'" and v: "gws_valid gpus ?st'" and s: "sized (length gpus) ?st'"
    using assms(1) by (simp_all add: placing_def within_def gws_valid_def sized_def)
  have pl: "within gpus sz (place_layer (maxGraph sz) ?ls b (length (gpusWithSpace ?st')) ?st')"
    by (rule within_place_layer[OF w v s _ safe]) simp
  have pv: "gws_valid gpus (place_layer (maxGraph sz) ?ls b (length (gpusWithSpace ?st')) ?st')"
    by (rule gws_valid_subset[OF v place_layer_gws_subset])
  have ps: "sized (length gpus) (place_layer (maxGraph sz) ?ls b (length (gpusWithSpace ?st')) ?st')"
    by (rule sized_place_layer[OF s])
  show ?thesis
    using w v s pl pv ps safe by (auto simp: placing_def block_step_def Let_def)
qed

lemma placing_blocks:
  assumes "no_wrap gpus ggml sz"
  shows "placing gpus sz (blocks_placement gpus ggml opts sz)"
  unfolding blocks_placement_def place_blocks_def
proof (rule foldl_invariant)
  show "placing gpus sz (eligible_placement sz gpus)"
    using within_eligible[OF assms] gws_valid_eligible[of gpus sz] sized_eligible[of gpus sz] assms
    by (auto simp: placing_def safe_size_def no_wrap_def)
next
  fix s x assume "placing gpus sz s" "x \<in> set [0..<blockCount ggml]"
  then show "placing gpus sz (block_step ggml opts sz s x)"
    using placing_block_step[OF _ assms, of s x opts] by simp
qed

lemma within_place_output:
  assumes "within gpus sz st" and "gws_valid gpus st" and "sized (length gpus) st"
    and "safe_size gpus (memoryLayerOutput sz)"
  shows "within gpus sz (place_output sz st)"
proof (cases "find_output_gpu (maxGraph sz) (memoryLayerOutput sz) st (length (gpusWithSpace st))")
  case None
  then show ?thesis using assms(1) by (simp add: place_output_def)
next
  case (Some g)
  have mem: "g \<in> set (gpusWithSpace st)"
    and test: "FreeMemory (gs_g g) > gpuAllocations st ! gs_i g + maxGraph sz + memoryLayerOutput sz"
    using find_output_gpu_mem[OF Some] by simp_all
  have gi: "gs_i g < length gpus" and gg: "gs_g g = gpus ! gs_i g"
    using assms(2) mem by (auto simp: gws_valid_def)
  have len: "length (gpuAllocations st) = length gpus" "length (layerCounts st) = length gpus"
    using assms(3) by (simp_all add: sized_def)
  have cur: "unat (gpuAllocations st ! gs_i g) + unat (maxGraph sz) \<le> unat (FreeMemory (gpus ! gs_i g))"
    using assms(1) gi mem by (auto simp: within_def)
  have safe: "unat (FreeMemory (gpus ! gs_i g)) + unat (memoryLayerOutput sz) < 2 ^ 64"
    using assms(4) gi by (simp add: safe_size_def)
  have new: "unat (gpuAllocations st ! gs_i g + memoryLayerOutput sz) + unat (maxGraph sz)
        \<le> unat (FreeMemory (gpus ! gs_i g))"
    using test gg by (intro placement_room[OF cur safe]) simp
  show ?thesis unfolding within_def
  proof (intro allI impI)
    fix i assume i: "i < length gpus"
    show "i \<notin> gs_i ` set (gpusWithSpace (place_output sz st)) \<and>
         gpuAllocations (place_output sz st) ! i = 0 \<and> layerCounts (place_output sz st) ! i = 0 \<or>
         unat (gpuAllocations (place_output sz st) ! i) + unat (maxGraph sz)
         \<le> unat (FreeMemory (gpus ! i))"
    proof (cases "i = gs_i g")
      case True
      then show ?thesis using new gi len Some by (simp add: place_output_def)
    next
      case False
      then show ?thesis using assms(1) i Some by (auto simp: within_def place_output_def)
    qed
  qed
qed

lemma within_output:
  assumes "no_wrap gpus ggml sz"
  shows "within gpus sz (output_placement gpus ggml opts sz)"
proof -
  let ?st = "blocks_overflow ggml (blocks_placement gpus ggml opts sz)"
  have p: "placing gpus sz (blocks_placement gpus ggml opts sz)" by (rule placing_blocks[OF assms])
  have w: "within gpus sz ?st" and v: "gws_valid gpus ?st" and s: "sized (length gpus) ?st"
    using p by (simp_all add: placing_def within_def gws_valid_def sized_def)
  have safe: "safe_size gpus (memoryLayerOutput sz)"
    using assms by (auto simp: safe_size_def no_wrap_def)
  have "within gpus sz (place_output sz ?st)" by (rule within_place_output[OF w v s safe])
  then show ?thesis using w
    by (auto simp: output_placement_def output_step_def Let_def within_def)
qed

lemma graph_le_maxGraph:
  "graphFullOffload sz \<le> maxGraph sz" "graphPartialOffload sz \<le> maxGraph sz"
  by (simp_all add: maxGraph_def)

lemma final_within_free:
  assumes "no_wrap gpus ggml sz" and "i < length gpus"
  shows "gpuAllocations (final_placement gpus ggml opts sz) ! i \<le> FreeMemory (gpus ! i)"
proof -
  let ?st = "output_placement gpus ggml opts sz"
  have len: "length (gpuAllocations ?st) = length gpus" "length (layerCounts ?st) = length gpus"
    using sized_output[of gpus ggml opts sz] by (simp_all add: sized_def)
  have fin: "gpuAllocations (final_placement gpus ggml opts sz) ! i =
      (if layerCounts ?st ! i \<le> 0 then gpuAllocations ?st ! i
       else if fullyLoaded ?st then gpuAllocations ?st ! i + graphFullOffload sz
       else gpuAllocations ?st ! i + graphPartialOffload sz)"
    using assms(2) len by (simp add: final_placement_def graph_charge_def)
  from within_output[OF assms(1), of opts] assms(2)
  consider "gpuAllocations ?st ! i = 0" "layerCounts ?st ! i = 0"
    | "unat (gpuAllocations ?st ! i) + unat (maxGraph sz) \<le> unat (FreeMemory (gpus ! i))"
    by (auto simp: within_def)
  then show ?thesis
  proof cases
    case 1
    then show ?thesis by (simp add: fin)
  next
    case 2
    have "gpuAllocations ?st ! i + 0 \<le> FreeMemory (gpus ! i)"
      by (rule graph_room[OF 2]) simp
    then show ?thesis
      using graph_room[OF 2 graph_le_maxGraph(1)] graph_room[OF 2 graph_le_maxGraph(2)]
      by (simp add: fin)
  qed
qed

subsection \<open>The output step, case by case\<close>

lemma sint_below: "unat (x :: u64) < 2 ^ 63 \<Longrightarrow> sint x = int (unat x)"
proof -
  assume a: "unat x < 2 ^ 63"
  have "int (unat x) < int (2 ^ 63)" using a by (simp only: of_nat_less_iff)
  then have "uint x < 2 ^ 63" by simp
  moreover have "- (2 ^ 63) \<le> (0 :: int)" by simp
  then have "- (2 ^ 63) \<le> uint x" using uint_ge_0[of x] by (rule order_trans)
  ultimately have "signed_take_bit 63 (uint x) = uint x"
    by (intro signed_take_bit_int_eq_self)
  then show ?thesis by (simp add: sint_uint)
qed

lemma sint_succ_below: "unat (x :: u64) < 2 ^ 63 - 1 \<Longrightarrow> sint (x + 1) = int (unat x) + 1"
proof -
  assume a: "unat x < 2 ^ 63 - 1"
  have one: "unat (1 :: u64) = 1" by simp
  have "unat x + unat (1 :: u64) < 2 ^ 64" using a by simp
  then have "unat (x + 1) = unat x + unat (1 :: u64)" by (rule unat_add_nowrap)
  then have u: "unat (x + 1) = unat x + 1" using one by simp
  then have "unat (x + 1) < 2 ^ 63" using a by simp
  then have "sint (x + 1) = int (unat (x + 1))" by (rule sint_below)
  then show ?thesis using u by simp
qed





subsection \<open>The predictor loop\<close>

lemma fit_loop_find:
  assumes "map (\<lambda>gpus. EstimateGPULayers pmr gpus ggml projectors opts) groups = map Inr estimates"
    and "NumGPU opts < 0 \<longrightarrow> unat (BlockCount ggml) < 2 ^ 63 - 1"
  shows "fit_loop pmr ggml projectors opts groups v =
     Inr (case List.find (fits ggml opts) estimates of
            Some e \<Rightarrow> (True, VRAMSize e)
          | None \<Rightarrow> (False, if estimates = [] then v else VRAMSize (last estimates)))"
  using assms(1)
proof (induction groups arbitrary: estimates v)
  case Nil
  then show ?case by simp
next
  case (Cons gpus rest)
  then obtain e es where es: "estimates = e # es"
    and e: "EstimateGPULayers pmr gpus ggml projectors opts = Inr e"
    and rest: "map (\<lambda>gpus. EstimateGPULayers pmr gpus ggml projectors opts) rest = map Inr es"
    by (cases estimates) auto
  have bound: "NumGPU opts < 0 \<Longrightarrow> sint (BlockCount ggml + 1) = int (unat (BlockCount ggml)) + 1"
    using assms(2) by (simp add: sint_succ_below)
  show ?case
  proof (cases "fits ggml opts e")
    case True
    then show ?thesis using e es bound by (auto simp: fits_def Let_def split: if_splits)
  next
    case False
    then have "fit_loop pmr ggml projectors opts (gpus # rest) v =
                 fit_loop pmr ggml projectors opts rest (VRAMSize e)"
      using e bound by (auto simp: fits_def Let_def split: if_splits)
    then show ?thesis
      using Cons.IH[OF rest, of "VRAMSize e"] False es by (auto split: option.splits)
  qed
qed

subsection \<open>When the estimator returns\<close>

lemma EstimateGPULayers_Inr:
  "EstimateGPULayers pmr gpus ggml projectors opts = Inr e \<longleftrightarrow>
     gpus \<noteq> [] \<and> BlockCount ggml \<noteq> 0 \<and>
     e = build_estimate gpus (compute_sizes pmr gpus ggml projectors opts)
           (final_placement gpus ggml opts (compute_sizes pmr gpus ggml projectors opts))"
  by (auto simp: EstimateGPULayers_def Let_def)

lemma model2_estimate:
  "EstimateGPULayers no_projector [device ''cuda'' 1000 50] model2 [] opts_auto =
     Inr \<lparr>Layers = 3, Graph = 40, VRAMSize = 147, TotalSize = 147, TensorSplit = [],
          GPUSizes = [147]\<rparr>"
  by code_simp

lemma model2_estimate_cpu:
  "EstimateGPULayers no_projector [device ''cpu'' 1000 50] model2 [] opts_auto =
     Inr \<lparr>Layers = 0, Graph = 0, VRAMSize = 0, TotalSize = 147, TensorSplit = [],
          GPUSizes = []\<rparr>"
  by code_simp

section \<open>Properties of the estimator and the predictor\<close>

text \<open>
  C1, at a requested layer count equal to \<open>blockCount\<close>. Both blocks of \<open>model2\<close> are
  placed on a device of 1000 bytes; the guard of line 218 then skips the output layer
  (5 bytes), which is neither placed nor added to the overflow, and the full-load flag
  stays set. The estimate has \<open>VRAMSize = TotalSize = 142\<close> with \<open>Layers = 2\<close>, which is
  \<open>blockCount\<close> and not \<open>blockCount + 1\<close>, although the output layer has a nonzero size;
  the full graph (40 bytes) is charged. Without the cap the same device takes all
  three layers and both sizes are 147.
\<close>

theorem VRAMSize_TotalSize_at_cap:
  "EstimateGPULayers no_projector [device ''cuda'' 1000 50] model2 []
       (opts_auto\<lparr>NumGPU := 2\<rparr>) =
     Inr \<lparr>Layers = 2, Graph = 40, VRAMSize = 142, TotalSize = 142, TensorSplit = [],
          GPUSizes = [142]\<rparr> \<and>
   memoryLayerOutput (compute_sizes no_projector [device ''cuda'' 1000 50] model2 []
       (opts_auto\<lparr>NumGPU := 2\<rparr>)) = 5 \<and>
   BlockCount model2 = 2 \<and> (2 :: int) \<noteq> 2 + 1 \<and>
   EstimateGPULayers no_projector [device ''cuda'' 1000 50] model2 [] opts_auto =
     Inr \<lparr>Layers = 3, Graph = 40, VRAMSize = 147, TotalSize = 147, TensorSplit = [],
          GPUSizes = [147]\<rparr>"
  by code_simp



text \<open>
  C6, as the code has it. \<open>GPUSizes\<close> has one entry per device of the group when the
  estimate places at least one layer (\<open>Layers \<noteq> 0\<close>); for the \<^verbatim>\<open>cpu\<close> library and when no
  layer is placed the early returns leave it empty.
\<close>

theorem GPUSizes_length:
  "EstimateGPULayers pmr gpus ggml projectors opts = Inr e \<Longrightarrow>
     length (GPUSizes e) = (if Layers e = 0 then 0 else length gpus)"
  using sized_final[of gpus ggml opts "compute_sizes pmr gpus ggml projectors opts"]
  by (auto simp: EstimateGPULayers_Inr build_estimate_def Let_def sized_def)

theorem GPUSizes_length_witness:
  "EstimateGPULayers no_projector [device ''cuda'' 1000 50] model2 [] opts_auto =
     Inr \<lparr>Layers = 3, Graph = 40, VRAMSize = 147, TotalSize = 147, TensorSplit = [],
          GPUSizes = [147]\<rparr> \<and>
   length [147 :: u64] = length [device ''cuda'' 1000 50]"
  using GPUSizes_length[OF model2_estimate] model2_estimate by simp

text \<open>
  C6 as stated fails: for a device of the \<^verbatim>\<open>cpu\<close> library the estimate has an empty
  \<open>GPUSizes\<close>, while the group has one device.
\<close>

theorem GPUSizes_length_counterexample:
  "EstimateGPULayers no_projector [device ''cpu'' 1000 50] model2 [] opts_auto =
     Inr \<lparr>Layers = 0, Graph = 0, VRAMSize = 0, TotalSize = 147, TensorSplit = [],
          GPUSizes = []\<rparr> \<and>
   length (GPUSizes \<lparr>Layers = 0, Graph = 0, VRAMSize = 0, TotalSize = 147, TensorSplit = [],
          GPUSizes = []\<rparr>) \<noteq> length [device ''cpu'' 1000 50]"
  using model2_estimate_cpu by simp

text \<open>
  C2, as the code has it. When every grouping's estimate is returned and, for the auto
  sentinel, the block count is below \<open>2^63 - 1\<close> (so that \<^verbatim>\<open>int(BlockCount()+1)\<close> is
  \<open>blockCount + 1\<close>), \<^verbatim>\<open>PredictServerFit\<close> returns \<open>(True, VRAMSize)\<close> of the first grouping,
  in the order given, whose estimate fits, and \<open>False\<close> with the \<open>VRAMSize\<close> of the last
  grouping when none fits.
\<close>

theorem PredictServerFit_first_fit:
  assumes "map (\<lambda>gpus. EstimateGPULayers pmr gpus ggml projectors opts) groups = map Inr estimates"
    and "NumGPU opts < 0 \<longrightarrow> unat (BlockCount ggml) < 2 ^ 63 - 1"
  shows "PredictServerFit pmr groups ggml adapters projectors opts =
           Inr (first_fit ggml opts estimates)"
  using assms by (simp add: PredictServerFit_def first_fit_def fit_loop_find)

theorem PredictServerFit_first_fit_witness:
  "map (\<lambda>gpus. EstimateGPULayers no_projector gpus model2 [] opts_auto)
       [[device ''cuda'' 100 50], [device ''cuda'' 1000 50]] =
     map Inr [\<lparr>Layers = 0, Graph = 0, VRAMSize = 0, TotalSize = 53, TensorSplit = [],
               GPUSizes = []\<rparr>,
              \<lparr>Layers = 3, Graph = 40, VRAMSize = 147, TotalSize = 147, TensorSplit = [],
               GPUSizes = [147]\<rparr>] \<and>
   unat (BlockCount model2) < 2 ^ 63 - 1 \<and>
   PredictServerFit no_projector [[device ''cuda'' 100 50], [device ''cuda'' 1000 50]]
       model2 [] [] opts_auto = Inr (True, 147)"
proof -
  have h: "map (\<lambda>gpus. EstimateGPULayers no_projector gpus model2 [] opts_auto)
       [[device ''cuda'' 100 50], [device ''cuda'' 1000 50]] =
     map Inr [\<lparr>Layers = 0, Graph = 0, VRAMSize = 0, TotalSize = 53, TensorSplit = [],
               GPUSizes = []\<rparr>,
              \<lparr>Layers = 3, Graph = 40, VRAMSize = 147, TotalSize = 147, TensorSplit = [],
               GPUSizes = [147]\<rparr>]"
    by code_simp
  have b: "unat (BlockCount model2) < 2 ^ 63 - 1" by (simp add: model2_def)
  have "first_fit model2 opts_auto
          [\<lparr>Layers = 0, Graph = 0, VRAMSize = 0, TotalSize = 53, TensorSplit = [],
               GPUSizes = []\<rparr>,
              \<lparr>Layers = 3, Graph = 40, VRAMSize = 147, TotalSize = 147, TensorSplit = [],
               GPUSizes = [147]\<rparr>] = (True, 147)"
    by code_simp
  then show ?thesis using PredictServerFit_first_fit[OF h, of "[]"] h b by simp
qed

text \<open>
  C2 as stated fails for the auto sentinel when the block count is \<open>2^63 - 1\<close> or more:
  \<^verbatim>\<open>int(BlockCount()+1)\<close> is then zero or negative, and any positive layer count passes
  the test. For a block count of \<open>2^63\<close> the block loop does not run, the device takes
  the output layer, and the predictor answers \<open>True\<close> for one placed layer, far below
  \<open>blockCount + 1\<close>.
\<close>

theorem PredictServerFit_counterexample:
  "EstimateGPULayers no_projector [device ''cuda'' 1000 50] model_huge [] opts_auto =
     Inr \<lparr>Layers = 1, Graph = 40, VRAMSize = 105, TotalSize = 105, TensorSplit = [],
          GPUSizes = [105]\<rparr> \<and>
   PredictServerFit no_projector [[device ''cuda'' 1000 50]] model_huge [] [] opts_auto =
     Inr (True, 105) \<and>
   NumGPU opts_auto < 0 \<and>
   unat (BlockCount model_huge) = 2 ^ 63 \<and>
   first_fit model_huge opts_auto
     [\<lparr>Layers = 1, Graph = 40, VRAMSize = 105, TotalSize = 105, TensorSplit = [],
       GPUSizes = [105]\<rparr>] = (False, 105)"
proof -
  have e: "EstimateGPULayers no_projector [device ''cuda'' 1000 50] model_huge [] opts_auto =
     Inr \<lparr>Layers = 1, Graph = 40, VRAMSize = 105, TotalSize = 105, TensorSplit = [],
          GPUSizes = [105]\<rparr>"
    by code_simp
  have p: "PredictServerFit no_projector [[device ''cuda'' 1000 50]] model_huge [] [] opts_auto =
     Inr (True, 105)"
    by code_simp
  have n: "NumGPU opts_auto < 0" by (simp add: opts_auto_def)
  have b: "unat (BlockCount model_huge) = 2 ^ 63" by (simp add: model_huge_def)
  have "\<not> fits model_huge opts_auto
     \<lparr>Layers = 1, Graph = 40, VRAMSize = 105, TotalSize = 105, TensorSplit = [],
       GPUSizes = [105]\<rparr>"
    unfolding fits_def b using n by simp
  then have f: "first_fit model_huge opts_auto
     [\<lparr>Layers = 1, Graph = 40, VRAMSize = 105, TotalSize = 105, TensorSplit = [],
       GPUSizes = [105]\<rparr>] = (False, 105)"
    by (simp add: first_fit_def)
  show ?thesis using e p n b f by simp
qed

text \<open>
  C8, at a model whose blocks differ in size. The blocks of \<open>model2\<close> are 10 and 20 bytes
  (layer sizes 14 and 24 with the KV share), and a device of 100 bytes is too small to
  take any. The overflow loop of lines 212--214 adds the variable \<open>layerSize\<close>, which the
  block loop has left at the size of the last block: the overflow of the two unplaced
  blocks is \<open>2 * 24 = 48\<close> and \<open>TotalSize\<close> is 53. Twice the size taken from block 0 is
  28 (20 without the KV share); the two layers together take \<open>memoryWeights = 38\<close>.
\<close>

theorem blocks_overflow_at_unequal_blocks:
  "layerCount (blocks_placement [device ''cuda'' 100 50] model2 opts_auto
       (compute_sizes no_projector [device ''cuda'' 100 50] model2 [] opts_auto)) = 0 \<and>
   blockCount model2 = 2 \<and> blk model2 0 = Some 10 \<and> blk model2 1 = Some 20 \<and>
   layerSize0 (compute_sizes no_projector [device ''cuda'' 100 50] model2 [] opts_auto) = 14 \<and>
   memoryWeights (blocks_placement [device ''cuda'' 100 50] model2 opts_auto
       (compute_sizes no_projector [device ''cuda'' 100 50] model2 [] opts_auto)) = 38 \<and>
   overflow (blocks_overflow model2 (blocks_placement [device ''cuda'' 100 50] model2 opts_auto
       (compute_sizes no_projector [device ''cuda'' 100 50] model2 [] opts_auto))) = 48 \<and>
   (48 :: u64) \<noteq> of_nat (2 - 0) * 14 \<and> (48 :: u64) \<noteq> of_nat (2 - 0) * 10 \<and>
   EstimateGPULayers no_projector [device ''cuda'' 100 50] model2 [] opts_auto =
     Inr \<lparr>Layers = 0, Graph = 0, VRAMSize = 0, TotalSize = 53, TensorSplit = [],
          GPUSizes = []\<rparr>"
  by code_simp

text \<open>
  C5, as the code has it. A device whose free memory is below the sum of the larger
  graph size, its minimum reservation and two layer sizes (plus the projector overhead
  when no earlier device was eligible), where that sum is below \<open>2^64\<close>, is not among
  the devices with space, holds no layer, and its entry in \<open>GPUSizes\<close> (where the
  estimate has entries) is zero.
\<close>

theorem ineligible_device_gets_nothing:
  assumes "EstimateGPULayers pmr gpus ggml projectors opts = Inr e"
    and "sz = compute_sizes pmr gpus ggml projectors opts"
    and "i < length gpus"
    and "unat (FreeMemory (gpus ! i)) < required_memory sz gpus i"
    and "required_memory sz gpus i < 2 ^ 64"
  shows "i \<notin> gs_i ` set (gpusWithSpace (eligible_placement sz gpus)) \<and>
         layerCounts (final_placement gpus ggml opts sz) ! i = 0 \<and>
         (GPUSizes e = [] \<or> GPUSizes e ! i = 0)"
proof -
  have "unat (threshold sz (gpusWithSpace (filter_upto sz gpus i) = []) (gpus ! i)) =
          required_memory sz gpus i"
    using assms(5) by (rule threshold_required_memory)
  then have below: "FreeMemory (gpus ! i)
      < threshold sz (gpusWithSpace (filter_upto sz gpus i) = []) (gpus ! i)"
    using assms(4) by (simp add: word_less_nat_alt)
  have "untouched i (eligible_placement sz gpus)" "untouched i (final_placement gpus ggml opts sz)"
    using assms(3) below by (rule untouched_eligible, rule untouched_final)
  then show ?thesis
    using assms(1,2) by (auto simp: untouched_def EstimateGPULayers_Inr build_estimate_def Let_def)
qed

theorem ineligible_device_gets_nothing_witness:
  "EstimateGPULayers no_projector two_devices model2 [] opts_auto =
     Inr \<lparr>Layers = 3, Graph = 30, VRAMSize = 137, TotalSize = 137, TensorSplit = ''0,3'',
          GPUSizes = [0, 137]\<rparr> \<and>
   0 < length two_devices \<and>
   unat (FreeMemory (two_devices ! 0)) = 100 \<and>
   required_memory (compute_sizes no_projector two_devices model2 [] opts_auto) two_devices 0
     = 108 \<and>
   0 \<notin> gs_i ` set (gpusWithSpace (eligible_placement
         (compute_sizes no_projector two_devices model2 [] opts_auto) two_devices)) \<and>
   [0, 137 :: u64] ! 0 = 0"
proof -
  let ?sz = "compute_sizes no_projector two_devices model2 [] opts_auto"
  have e: "EstimateGPULayers no_projector two_devices model2 [] opts_auto =
     Inr \<lparr>Layers = 3, Graph = 30, VRAMSize = 137, TotalSize = 137, TensorSplit = ''0,3'',
          GPUSizes = [0, 137]\<rparr>"
    by code_simp
  have i: "0 < length two_devices" by code_simp
  have f: "unat (FreeMemory (two_devices ! 0)) = 100" by code_simp
  have r: "required_memory ?sz two_devices 0 = 108" by code_simp
  have lt: "unat (FreeMemory (two_devices ! 0)) < required_memory ?sz two_devices 0"
    unfolding f r by simp
  have nw: "required_memory ?sz two_devices 0 < 2 ^ 64" unfolding r by simp
  from ineligible_device_gets_nothing[OF e refl i lt nw] show ?thesis
    using e i f r by simp
qed

text \<open>
  C5 as stated fails when the sum wraps around. For a minimum reservation of
  \<open>2^64 - 68\<close> bytes the sum is \<open>40 + (2^64 - 68) + 2 * 14 = 2^64\<close>, far above the 9 free
  bytes of the device, but the 64-bit sum of line 167 is 0: the device is kept, takes
  block 0, and its entry in \<open>GPUSizes\<close> is not zero.
\<close>

theorem ineligible_device_counterexample:
  "unat (FreeMemory ([device ''cuda'' 9 18446744073709551548] ! 0)) = 9 \<and>
   required_memory
     (compute_sizes no_projector [device ''cuda'' 9 18446744073709551548] model2 [] opts_auto)
     [device ''cuda'' 9 18446744073709551548] 0 = 2 ^ 64 \<and>
   (9 :: nat) < 2 ^ 64 \<and>
   gpusWithSpace (eligible_placement
     (compute_sizes no_projector [device ''cuda'' 9 18446744073709551548] model2 [] opts_auto)
     [device ''cuda'' 9 18446744073709551548]) =
     [\<lparr>gs_i = 0, gs_g = device ''cuda'' 9 18446744073709551548\<rparr>] \<and>
   EstimateGPULayers no_projector [device ''cuda'' 9 18446744073709551548] model2 [] opts_auto =
     Inr \<lparr>Layers = 1, Graph = 30, VRAMSize = 18446744073709551606, TotalSize = 19,
          TensorSplit = [], GPUSizes = [18446744073709551606]\<rparr> \<and>
   [18446744073709551606 :: u64] ! 0 \<noteq> 0"
proof -
  have sz: "compute_sizes no_projector [device ''cuda'' 9 18446744073709551548] model2 [] opts_auto =
     \<lparr>projectorSize = 0, kv = 8, layerSize0 = 14, graphPartialOffload = 30,
      graphFullOffload = 40, memoryLayerOutput = 5\<rparr>"
    by code_simp
  have f: "unat (FreeMemory ([device ''cuda'' 9 18446744073709551548] ! 0)) = 9"
    by (simp add: device_def)
  have r: "required_memory
     (compute_sizes no_projector [device ''cuda'' 9 18446744073709551548] model2 [] opts_auto)
     [device ''cuda'' 9 18446744073709551548] 0 = 2 ^ 64"
    unfolding sz by (simp add: required_memory_def device_def)
  have g: "gpusWithSpace (eligible_placement
     (compute_sizes no_projector [device ''cuda'' 9 18446744073709551548] model2 [] opts_auto)
     [device ''cuda'' 9 18446744073709551548]) =
     [\<lparr>gs_i = 0, gs_g = device ''cuda'' 9 18446744073709551548\<rparr>]"
    by code_simp
  have e: "EstimateGPULayers no_projector [device ''cuda'' 9 18446744073709551548] model2 [] opts_auto =
     Inr \<lparr>Layers = 1, Graph = 30, VRAMSize = 18446744073709551606, TotalSize = 19,
          TensorSplit = [], GPUSizes = [18446744073709551606]\<rparr>"
    by code_simp
  show ?thesis using f r g e by simp
qed




text \<open>
  C4, as the code has it. For a group of one device, more free memory on that device
  never decreases the placed layer count.
\<close>

theorem single_device_monotone:
  assumes "EstimateGPULayers pmr [g] ggml projectors opts = Inr e"
    and "EstimateGPULayers pmr [g\<lparr>FreeMemory := f'\<rparr>] ggml projectors opts = Inr e'"
    and "FreeMemory g < f'"
  shows "Layers e \<le> Layers e'"
  using assms(1,2) final_count_mono[OF assms(3), of ggml opts "compute_sizes pmr [g] ggml projectors opts"]
    final_count_nonneg[of "[g\<lparr>FreeMemory := f'\<rparr>]" ggml opts "compute_sizes pmr [g] ggml projectors opts"]
  by (auto simp: EstimateGPULayers_Inr compute_sizes_single build_estimate_def Let_def)


theorem single_device_monotone_witness:
  "EstimateGPULayers no_projector [device ''cuda'' 130 50] model2 [] opts_auto =
     Inr \<lparr>Layers = 1, Graph = 30, VRAMSize = 108, TotalSize = 137, TensorSplit = [],
          GPUSizes = [108]\<rparr> \<and>
   EstimateGPULayers no_projector [(device ''cuda'' 130 50)\<lparr>FreeMemory := 1000\<rparr>] model2 []
       opts_auto =
     Inr \<lparr>Layers = 3, Graph = 40, VRAMSize = 147, TotalSize = 147, TensorSplit = [],
          GPUSizes = [147]\<rparr> \<and>
   FreeMemory (device ''cuda'' 130 50) < 1000 \<and> (1::int) \<le> 3"
proof -
  have a: "EstimateGPULayers no_projector [device ''cuda'' 130 50] model2 [] opts_auto =
     Inr \<lparr>Layers = 1, Graph = 30, VRAMSize = 108, TotalSize = 137, TensorSplit = [],
          GPUSizes = [108]\<rparr>"
    by code_simp
  have b: "EstimateGPULayers no_projector [(device ''cuda'' 130 50)\<lparr>FreeMemory := 1000\<rparr>] model2 []
       opts_auto =
     Inr \<lparr>Layers = 3, Graph = 40, VRAMSize = 147, TotalSize = 147, TensorSplit = [],
          GPUSizes = [147]\<rparr>"
    by code_simp
  have c: "FreeMemory (device ''cuda'' 130 50) < 1000" by code_simp
  from single_device_monotone[OF a b c] show ?thesis using a b c by simp
qed

text \<open>
  C4 as stated fails for a group of three devices. With the first device at 0 bytes it
  is not eligible, the other two take the blocks in turn and all six are placed. With
  the first device at 3 bytes it takes block 0, the rotation then offers the 100-byte
  block to the small second device, which is dropped for it, and only four blocks
  are placed.
\<close>

theorem monotone_counterexample:
  "EstimateGPULayers no_projector [device ''cuda'' 0 0, device ''cuda'' 5 0, device ''cuda'' 104 0]
      model6 [] opts_auto =
     Inr \<lparr>Layers = 6, Graph = 0, VRAMSize = 107, TotalSize = 107, TensorSplit = ''0,3,3'',
          GPUSizes = [0, 4, 103]\<rparr> \<and>
   EstimateGPULayers no_projector [device ''cuda'' 3 0, device ''cuda'' 5 0, device ''cuda'' 104 0]
      model6 [] opts_auto =
     Inr \<lparr>Layers = 4, Graph = 0, VRAMSize = 106, TotalSize = 108, TensorSplit = ''1,0,3'',
          GPUSizes = [2, 1, 103]\<rparr> \<and>
   FreeMemory (device ''cuda'' 0 0) < FreeMemory (device ''cuda'' 3 0) \<and>
   \<not> (6 :: int) \<le> 4"
  by code_simp

text \<open>
  C9, as the code has it. When no 64-bit sum wraps around (\<open>no_wrap\<close>), every entry of
  \<open>GPUSizes\<close> is at most the free memory of its device.
\<close>

theorem GPUSizes_within_free_memory:
  assumes "EstimateGPULayers pmr gpus ggml projectors opts = Inr e"
    and "no_wrap gpus ggml (compute_sizes pmr gpus ggml projectors opts)"
    and "i < length (GPUSizes e)"
  shows "GPUSizes e ! i \<le> FreeMemory (gpus ! i)"
proof -
  let ?sz = "compute_sizes pmr gpus ggml projectors opts"
  have e: "e = build_estimate gpus ?sz (final_placement gpus ggml opts ?sz)"
    using assms(1) by (simp add: EstimateGPULayers_Inr)
  have len: "length (gpuAllocations (final_placement gpus ggml opts ?sz)) = length gpus"
    using sized_final[of gpus ggml opts ?sz] by (simp add: sized_def)
  have g: "GPUSizes e = gpuAllocations (final_placement gpus ggml opts ?sz)"
    using assms(3) unfolding e by (auto simp: build_estimate_def Let_def split: if_splits)
  then have "i < length gpus" using assms(3) len by simp
  from final_within_free[OF assms(2) this, of opts] show ?thesis using g by simp
qed


theorem GPUSizes_within_free_memory_witness:
  "EstimateGPULayers no_projector [device ''cuda'' 1000 50] model2 [] opts_auto =
     Inr \<lparr>Layers = 3, Graph = 40, VRAMSize = 147, TotalSize = 147, TensorSplit = [],
          GPUSizes = [147]\<rparr> \<and>
   no_wrap [device ''cuda'' 1000 50] model2
     (compute_sizes no_projector [device ''cuda'' 1000 50] model2 [] opts_auto) \<and>
   0 < length [147 :: u64] \<and>
   [147 :: u64] ! 0 \<le> FreeMemory ([device ''cuda'' 1000 50] ! 0)"
proof -
  have sz: "compute_sizes no_projector [device ''cuda'' 1000 50] model2 [] opts_auto =
     \<lparr>projectorSize = 0, kv = 8, layerSize0 = 14, graphPartialOffload = 30,
      graphFullOffload = 40, memoryLayerOutput = 5\<rparr>"
    by code_simp
  have n: "blockCount model2 = 2" by code_simp
  have nw: "no_wrap [device ''cuda'' 1000 50] model2
     (compute_sizes no_projector [device ''cuda'' 1000 50] model2 [] opts_auto)"
    unfolding sz no_wrap_def n
    by (simp add: maxGraph_def device_def model2_def atLeastLessThan_upt upt_rec)
  have i: "0 < length (GPUSizes \<lparr>Layers = 3, Graph = 40, VRAMSize = 147, TotalSize = 147,
      TensorSplit = [], GPUSizes = [147]\<rparr>)"
    by simp
  from GPUSizes_within_free_memory[OF model2_estimate nw i] show ?thesis
    using model2_estimate nw by simp
qed

text \<open>
  C9 as stated fails when a sum wraps around. For a minimum reservation of
  \<open>2^64 - 68\<close> bytes the threshold \<open>40 + (2^64 - 68) + 2 * 14\<close> wraps to 0, so a device
  with 7 free bytes is eligible; the fit test for block 0 wraps to \<open>0 < 7\<close> as well, and
  the device ends with an allocation of \<open>2^64 - 10\<close> bytes.
\<close>

theorem GPUSizes_within_free_memory_counterexample:
  "EstimateGPULayers no_projector [device ''cuda'' 7 18446744073709551548] model2 [] opts_auto =
     Inr \<lparr>Layers = 1, Graph = 30, VRAMSize = 18446744073709551606, TotalSize = 19,
          TensorSplit = [], GPUSizes = [18446744073709551606]\<rparr> \<and>
   \<not> [18446744073709551606 :: u64] ! 0 \<le> FreeMemory (device ''cuda'' 7 18446744073709551548)"
  by code_simp

text \<open>
  C10. On an empty device list the function panics at the read of \<^verbatim>\<open>gpus[0]\<close>; it returns
  an estimate exactly when the list is non-empty and the block count is not zero.
\<close>

theorem EstimateGPULayers_needs_device:
  "EstimateGPULayers pmr [] ggml projectors opts = Inl IndexOutOfRange \<and>
   (isl (EstimateGPULayers pmr gpus ggml projectors opts) \<longleftrightarrow> gpus = [] \<or> BlockCount ggml = 0)"
  by (simp add: EstimateGPULayers_def Let_def)

end
